theory Spec2Isabelle
  imports Main
begin

section \<open>Exceptions\<close>

text \<open>
  The exceptions the handlers of \<^verbatim>\<open>main.py\<close> raise or meet. All of them are subclasses of
  Python's \<^verbatim>\<open>Exception\<close> (FastAPI's \<^verbatim>\<open>HTTPException\<close> included), so a clause
  \<^verbatim>\<open>except Exception\<close> catches every value of this type. \<open>DriverError\<close> stands for the
  exception of a database driver that refuses to bind a parameter, \<open>CommitError\<close> for the
  exception that \<^verbatim>\<open>db.commit()\<close> raises when the database refuses a statement of the flush
  (\<^verbatim>\<open>IntegrityError\<close>, \<^verbatim>\<open>DataError\<close>, ...), whatever its class.

  The detail of an \<^verbatim>\<open>HTTPException\<close> is either a literal text or the f-string
  \<^verbatim>\<open>f"Failed to process file: {e}"\<close> of \<^verbatim>\<open>upload_file\<close>, kept structured: the exception
  \<^verbatim>\<open>e\<close> it formats.
\<close>

datatype exn =
    HTTPException nat detail
  | KeyError string
  | TypeError
  | ValueError string
  | UnicodeDecodeError
  | CsvError
  | DriverError
  | CommitError
  | RuntimeError string
  | NameError string
  | ResponseValidationError
and detail =
    Detail string
  | FailedToProcessFile exn

fun status_code :: "exn \<Rightarrow> nat option" where
  "status_code (HTTPException c d) = Some c"
| "status_code e = None"

section \<open>The platform\<close>

text \<open>
  What the program takes from its interpreter and its database, which are not part of the
  repository and differ between installations. Every definition below that depends on
  them takes the platform as its first argument, and every theorem holds for all
  platforms.
  \<^item> \<open>int_of_str s\<close> is Python's \<^verbatim>\<open>int(s)\<close> for a \<^verbatim>\<open>str\<close>; \<open>None\<close> stands for its
    \<^verbatim>\<open>ValueError\<close>.
  \<^item> \<open>binds_key k\<close> says that the driver binds the integer \<open>k\<close> as the parameter of the
    \<^verbatim>\<open>SELECT\<close> by primary key that \<^verbatim>\<open>db.merge\<close> issues. Where it does not, the driver raises
    before a statement reaches the database.
  \<^item> \<open>integer_column k\<close> says that a column \<^verbatim>\<open>Column(Integer)\<close> takes the value \<open>k\<close> in an
    \<^verbatim>\<open>INSERT\<close>.
  \<^item> \<open>varchar_column n s\<close> is what a column \<^verbatim>\<open>Column(String(n))\<close> stores when it is given
    the text \<open>s\<close>; \<open>None\<close> when the database refuses the text.
\<close>

record platform =
  int_of_str :: "string \<Rightarrow> int option"
  binds_key :: "int \<Rightarrow> bool"
  integer_column :: "int \<Rightarrow> bool"
  varchar_column :: "nat \<Rightarrow> string \<Rightarrow> string option"

section \<open>The Lead model (models.py)\<close>

text \<open>
  \<^verbatim>\<open>class Lead(Base)\<close>: an integer primary key supplied by the caller and six nullable
  columns \<^verbatim>\<open>String(100)\<close>. The column \<^verbatim>\<open>id\<close> is named \<open>lead_id\<close> here.
\<close>

record lead =
  lead_id :: int
  lead_name :: "string option"
  email :: "string option"
  source :: "string option"
  interest_level :: "string option"
  status :: "string option"
  salesperson :: "string option"

text \<open>
  The table \<^verbatim>\<open>leads\<close> is the list of its rows. \<open>pk_unique\<close> is the primary-key constraint
  of \<^verbatim>\<open>Column(Integer, primary_key=True)\<close>.
\<close>

type_synonym leads_table = "lead list"

definition pk_unique :: "leads_table \<Rightarrow> bool" where
  "pk_unique t = distinct (map lead_id t)"

text \<open>
  What a nullable column \<^verbatim>\<open>String(n)\<close> stores for an attribute: \<^verbatim>\<open>None\<close> is stored as
  \<^verbatim>\<open>NULL\<close>, a text as the platform stores it. The outer \<open>None\<close> is the refusal.
\<close>

definition string_column :: "platform \<Rightarrow> nat \<Rightarrow> string option \<Rightarrow> string option option" where
  "string_column p n v =
     (case v of
        None \<Rightarrow> Some None
      | Some s \<Rightarrow> (case varchar_column p n s of None \<Rightarrow> None | Some s' \<Rightarrow> Some (Some s')))"

text \<open>
  The row that an \<^verbatim>\<open>UPDATE\<close> of the six string columns leaves for a lead, and the row that
  an \<^verbatim>\<open>INSERT\<close> of the lead creates; \<open>None\<close> when the database refuses a value.
\<close>

definition update_row :: "platform \<Rightarrow> lead \<Rightarrow> lead option" where
  "update_row p l =
     (case string_column p 100 (lead_name l) of None \<Rightarrow> None | Some a \<Rightarrow>
     (case string_column p 100 (email l) of None \<Rightarrow> None | Some b \<Rightarrow>
     (case string_column p 100 (source l) of None \<Rightarrow> None | Some c \<Rightarrow>
     (case string_column p 100 (interest_level l) of None \<Rightarrow> None | Some d \<Rightarrow>
     (case string_column p 100 (status l) of None \<Rightarrow> None | Some e \<Rightarrow>
     (case string_column p 100 (salesperson l) of None \<Rightarrow> None | Some f \<Rightarrow>
        Some \<lparr>lead_id = lead_id l, lead_name = a, email = b, source = c,
              interest_level = d, status = e, salesperson = f\<rparr>))))))"

definition insert_row :: "platform \<Rightarrow> lead \<Rightarrow> lead option" where
  "insert_row p l = (if integer_column p (lead_id l) then update_row p l else None)"

text \<open>The table after \<^verbatim>\<open>UPDATE leads SET ... WHERE id = :id\<close> with the row \<open>u\<close>.\<close>

definition update_table :: "lead \<Rightarrow> leads_table \<Rightarrow> leads_table" where
  "update_table u t = map (\<lambda>r. if lead_id r = lead_id u then u else r) t"

section \<open>The database session (dbconf.py)\<close>

text \<open>
  A session of \<^verbatim>\<open>SessionLocal = sessionmaker(autocommit=False, autoflush=False, ...)\<close>:
  \<^item> \<open>store\<close>: the committed rows of the table;
  \<^item> \<open>dirty\<close>: the stored leads that the session has loaded, one per key, with the
    attribute values merged into them;
  \<^item> \<open>added\<close>: the new instances that the session will insert, oldest first;
  \<^item> \<open>commits\<close>: the number of calls of \<^verbatim>\<open>db.commit()\<close>.
  Nothing is flushed before the commit, since \<^verbatim>\<open>autoflush\<close> is off.
\<close>

record session =
  store :: leads_table
  dirty :: "lead list"
  added :: "lead list"
  commits :: nat

definition SessionLocal :: "leads_table \<Rightarrow> session" where
  "SessionLocal t = \<lparr>store = t, dirty = [], added = [], commits = 0\<rparr>"

text \<open>
  What \<^verbatim>\<open>db.merge(lead)\<close> does once the lookup of the key has returned. A key that is
  stored gives the loaded lead, which takes all attribute values of \<open>l\<close>. A key that is
  not stored gives a new instance: the instances added before are not looked at, so a
  second merge of the same new key adds a second instance.
\<close>

definition attach :: "session \<Rightarrow> lead \<Rightarrow> session" where
  "attach db l =
     (if lead_id l \<in> set (map lead_id (store db))
      then db\<lparr>dirty := filter (\<lambda>u. lead_id u \<noteq> lead_id l) (dirty db) @ [l]\<rparr>
      else db\<lparr>added := added db @ [l]\<rparr>)"

definition merge :: "platform \<Rightarrow> session \<Rightarrow> lead \<Rightarrow> exn + session" where
  "merge p db l = (if \<not> binds_key p (lead_id l) then Inl DriverError else Inr (attach db l))"

text \<open>
  The flush of \<^verbatim>\<open>db.commit()\<close>: one \<^verbatim>\<open>UPDATE\<close> per loaded lead and one \<^verbatim>\<open>INSERT\<close> per new
  instance. The result is the table afterwards, or \<open>None\<close> when the database refuses a
  statement: two new instances have the same key, or a value does not fit its column.
\<close>

definition flush :: "platform \<Rightarrow> session \<Rightarrow> leads_table option" where
  "flush p db =
     (if \<not> distinct (map lead_id (added db)) then None
      else
        (case those (map (update_row p) (dirty db)) of
           None \<Rightarrow> None
         | Some us \<Rightarrow>
             (case those (map (insert_row p) (added db)) of
                None \<Rightarrow> None
              | Some ns \<Rightarrow> Some (foldl (\<lambda>t u. update_table u t) (store db) us @ ns))))"

text \<open>
  \<^verbatim>\<open>db.commit()\<close>: the transaction is committed when the flush succeeds and rolled back
  when it raises; either way the session holds no pending change afterwards.
\<close>

definition commit :: "platform \<Rightarrow> session \<Rightarrow> (exn + unit) \<times> session" where
  "commit p db =
     (case flush p db of
        None \<Rightarrow> (Inl CommitError, db\<lparr>dirty := [], added := [], commits := commits db + 1\<rparr>)
      | Some t \<Rightarrow>
          (Inr (), db\<lparr>store := t, dirty := [], added := [], commits := commits db + 1\<rparr>))"

text \<open>
  \<^verbatim>\<open>db.close()\<close>, the \<^verbatim>\<open>finally\<close> of \<^verbatim>\<open>get_database_session\<close>: what was not committed is
  discarded.
\<close>

definition close :: "session \<Rightarrow> session" where
  "close db = db\<lparr>dirty := [], added := []\<rparr>"

section \<open>Reading the uploaded CSV\<close>

subsection \<open>csv.DictReader\<close>

text \<open>
  The uploaded bytes are taken as what \<^verbatim>\<open>contents.decode("utf-8")\<close> and \<^verbatim>\<open>csv.reader\<close>
  make of them: either the bytes are not UTF-8 (\<^verbatim>\<open>decode\<close> raises), or the text is a
  sequence of lines, each of which the reader either splits into fields or rejects with
  \<^verbatim>\<open>csv.Error\<close> when it is reached.
\<close>

datatype csv_line = Fields "string list" | Malformed

datatype contents = NotUtf8 | Utf8 "csv_line list"

text \<open>
  A row of \<^verbatim>\<open>csv.DictReader\<close>: a dict from the field names to the fields. A name whose
  field is missing in a short line is mapped to \<^verbatim>\<open>None\<close> (the reader's \<^verbatim>\<open>restval\<close>); of two
  equal names the later wins, as in \<^verbatim>\<open>dict(zip(fieldnames, row))\<close>. The surplus fields of a
  long line go under the key \<^verbatim>\<open>None\<close>, that no lookup of the program uses.
\<close>

type_synonym row = "string \<Rightarrow> string option option"

definition make_row :: "string list \<Rightarrow> string list \<Rightarrow> row" where
  "make_row names vals =
     map_of (rev (zip names (map Some vals @ replicate (length names - length vals) None)))"

text \<open>
  What iterating the reader yields: the first line is the header, empty lines after it are
  skipped, and a rejected line raises, which ends the iteration.
\<close>

fun dict_rows :: "string list \<Rightarrow> csv_line list \<Rightarrow> (exn + row) list" where
  "dict_rows names [] = []"
| "dict_rows names (Malformed # rest) = [Inl CsvError]"
| "dict_rows names (Fields vals # rest) =
     (if vals = [] then dict_rows names rest
      else Inr (make_row names vals) # dict_rows names rest)"

definition DictReader :: "csv_line list \<Rightarrow> (exn + row) list" where
  "DictReader ls =
     (case ls of
        [] \<Rightarrow> []
      | Malformed # rest \<Rightarrow> [Inl CsvError]
      | Fields names # rest \<Rightarrow> dict_rows names rest)"

text \<open>\<^verbatim>\<open>row.get(key)\<close>: \<^verbatim>\<open>None\<close> when the key is absent.\<close>

definition row_get :: "row \<Rightarrow> string \<Rightarrow> string option" where
  "row_get r k = (case r k of None \<Rightarrow> None | Some v \<Rightarrow> v)"

section \<open>CSV ingestion (main.py, process_csv_data)\<close>

text \<open>
  The construction of the Lead in the body of the \<^verbatim>\<open>try\<close>:
  \<^verbatim>\<open>row["Lead ID"]\<close> raises \<^verbatim>\<open>KeyError\<close> when the header has no such column,
  \<^verbatim>\<open>int(None)\<close> raises \<^verbatim>\<open>TypeError\<close>, \<^verbatim>\<open>int\<close> of a text that is no integer raises
  \<^verbatim>\<open>ValueError\<close>.
\<close>

definition Lead :: "platform \<Rightarrow> row \<Rightarrow> exn + lead" where
  "Lead p r =
     (case r ''Lead ID'' of
        None \<Rightarrow> Inl (KeyError ''Lead ID'')
      | Some None \<Rightarrow> Inl TypeError
      | Some (Some s) \<Rightarrow>
          (case int_of_str p s of
             None \<Rightarrow> Inl (ValueError s)
           | Some n \<Rightarrow>
               Inr \<lparr>lead_id = n,
                    lead_name = row_get r ''Lead Name'',
                    email = row_get r ''Contact Information'',
                    source = row_get r ''Source'',
                    interest_level = row_get r ''Interest Level'',
                    status = row_get r ''Status'',
                    salesperson = row_get r ''Assigned Salesperson''\<rparr>))"

text \<open>What the handlers print.\<close>

datatype printed = SkippingInvalidRow exn | UnsupportedFileType

text \<open>
  The \<^verbatim>\<open>for row in csv_reader\<close> loop, with the session, the counter \<^verbatim>\<open>processed\<close> and the
  printed lines as its state. The \<^verbatim>\<open>try\<close> holds the construction of the Lead, the merge
  and the increment; whatever the first two raise is printed and the loop goes on with the
  next row. An exception of the reader is raised outside the \<^verbatim>\<open>try\<close> and leaves the loop.
\<close>

fun csv_loop ::
  "platform \<Rightarrow> (exn + row) list \<Rightarrow> session \<Rightarrow> nat \<Rightarrow> printed list \<Rightarrow>
   (exn + nat) \<times> session \<times> printed list"
where
  "csv_loop p [] db processed out = (Inr processed, db, out)"
| "csv_loop p (Inl e # rest) db processed out = (Inl e, db, out)"
| "csv_loop p (Inr r # rest) db processed out =
     (case Lead p r of
        Inl e \<Rightarrow> csv_loop p rest db processed (out @ [SkippingInvalidRow e])
      | Inr l \<Rightarrow>
          (case merge p db l of
             Inl e \<Rightarrow> csv_loop p rest db processed (out @ [SkippingInvalidRow e])
           | Inr db' \<Rightarrow> csv_loop p rest db' (processed + 1) out))"

text \<open>
  \<^verbatim>\<open>db.commit()\<close> follows the loop, outside every \<^verbatim>\<open>try\<close> of the function: what it raises
  leaves the function.
\<close>

definition process_csv_data ::
  "platform \<Rightarrow> contents \<Rightarrow> session \<Rightarrow> (exn + nat) \<times> session \<times> printed list"
where
  "process_csv_data p c db =
     (case c of
        NotUtf8 \<Rightarrow> (Inl UnicodeDecodeError, db, [])
      | Utf8 ls \<Rightarrow>
          (case csv_loop p (DictReader ls) db 0 [] of
             (Inl e, db', out) \<Rightarrow> (Inl e, db', out)
           | (Inr processed, db', out) \<Rightarrow>
               (case commit p db' of
                  (Inl e, db'') \<Rightarrow> (Inl e, db'', out)
                | (Inr u, db'') \<Rightarrow> (Inr processed, db'', out))))"

section \<open>POST /files/ (main.py, upload_file)\<close>

record upload =
  filename :: "string option"
  content_type :: "string option"
  file_contents :: contents

record response =
  resp_filename :: "string option"
  processed_count :: nat
  resp_status :: string

text \<open>
  The three branches run inside \<^verbatim>\<open>try\<close>; \<^verbatim>\<open>except Exception as e\<close> turns whatever they
  raise into \<^verbatim>\<open>HTTPException(status_code=500, detail=f"Failed to process file: {e}")\<close>.
\<close>

definition upload_file ::
  "platform \<Rightarrow> upload \<Rightarrow> session \<Rightarrow> (exn + response) \<times> session \<times> printed list"
where
  "upload_file p file db =
     (case (if content_type file = Some ''application/json''
              then (Inr 0, db, [UnsupportedFileType])
            else if content_type file = Some ''text/csv''
              then process_csv_data p (file_contents file) db
            else (Inl (HTTPException 400 (Detail ''Unsupported file type'')), db, [])) of
        (Inl e, db', out) \<Rightarrow> (Inl (HTTPException 500 (FailedToProcessFile e)), db', out)
      | (Inr n, db', out) \<Rightarrow>
          (Inr \<lparr>resp_filename = filename file, processed_count = n, resp_status = ''success''\<rparr>,
           db', out))"

text \<open>
  One request: the dependency \<^verbatim>\<open>get_database_session\<close> opens a session on the table, the
  handler runs, the session is closed. The result is the response and the table afterwards.
\<close>

definition post_files ::
  "platform \<Rightarrow> upload \<Rightarrow> leads_table \<Rightarrow> (exn + response) \<times> leads_table"
where
  "post_files p file t =
     (case upload_file p file (SessionLocal t) of (r, db, out) \<Rightarrow> (r, store (close db)))"

section \<open>GET /leads/ (main.py, get_leads)\<close>

text \<open>
  \<^verbatim>\<open>query.filter(column == value)\<close> on a nullable column: SQL's \<open>=\<close> is never true of a
  \<^verbatim>\<open>NULL\<close>, so a row whose column is null is not selected.
\<close>

definition filter_eq :: "(lead \<Rightarrow> string option) \<Rightarrow> string \<Rightarrow> lead list \<Rightarrow> lead list" where
  "filter_eq col v query = filter (\<lambda>l. col l = Some v) query"

text \<open>\<^verbatim>\<open>if param is not None: query = query.filter(column == param)\<close>\<close>

definition filter_if_given ::
  "(lead \<Rightarrow> string option) \<Rightarrow> string option \<Rightarrow> lead list \<Rightarrow> lead list"
where
  "filter_if_given col param query = (case param of None \<Rightarrow> query | Some v \<Rightarrow> filter_eq col v query)"

text \<open>
  The handler. The parameter \<^verbatim>\<open>id\<close> is named \<open>ident\<close>. The query reads the committed rows
  of the table; \<^verbatim>\<open>query.all()\<close> is the list of the selected rows.
\<close>

definition get_leads ::
  "int option \<Rightarrow> string option \<Rightarrow> string option \<Rightarrow> string option \<Rightarrow> string option \<Rightarrow>
   string option \<Rightarrow> session \<Rightarrow> lead list"
where
  "get_leads ident name src interest st sales db =
     (let query = store db in
      case ident of
        Some i \<Rightarrow> filter (\<lambda>l. lead_id l = i) query
      | None \<Rightarrow>
          filter_if_given salesperson sales
            (filter_if_given status st
              (filter_if_given interest_level interest
                (filter_if_given source src
                  (filter_if_given lead_name name query)))))"

subsection \<open>The response model (schema.py, LeadRead)\<close>

record LeadRead =
  read_id :: int
  read_lead_name :: string
  read_email :: string
  read_source :: string
  read_interest_level :: string
  read_status :: string
  read_salesperson :: string

text \<open>
  Validation of an attribute against \<^verbatim>\<open>str = Field(None, max_length=...)\<close>: the attribute
  of a stored lead is always present, so the default is never taken; \<^verbatim>\<open>None\<close> is not a
  \<^verbatim>\<open>str\<close>, and a text longer than the bound is refused. \<open>None\<close> stands for the validation
  error.
\<close>

definition validate_str :: "nat option \<Rightarrow> string option \<Rightarrow> string option" where
  "validate_str max_length v =
     (case v of
        None \<Rightarrow> None
      | Some s \<Rightarrow>
          (case max_length of
             None \<Rightarrow> Some s
           | Some m \<Rightarrow> if length s \<le> m then Some s else None))"

definition model_validate :: "lead \<Rightarrow> LeadRead option" where
  "model_validate l =
     (case validate_str (Some 100) (lead_name l) of None \<Rightarrow> None | Some a \<Rightarrow>
     (case validate_str (Some 100) (email l) of None \<Rightarrow> None | Some b \<Rightarrow>
     (case validate_str None (source l) of None \<Rightarrow> None | Some c \<Rightarrow>
     (case validate_str None (interest_level l) of None \<Rightarrow> None | Some d \<Rightarrow>
     (case validate_str None (status l) of None \<Rightarrow> None | Some e \<Rightarrow>
     (case validate_str None (salesperson l) of None \<Rightarrow> None | Some f \<Rightarrow>
        Some \<lparr>read_id = lead_id l, read_lead_name = a, read_email = b, read_source = c,
              read_interest_level = d, read_status = e, read_salesperson = f\<rparr>))))))"

text \<open>
  The route \<^verbatim>\<open>@app.get("/leads/", response_model=List[LeadRead])\<close> on a table: a session is
  opened, the handler runs, and every lead it returns is validated against the response
  model; one failure fails the whole response.
\<close>

definition get_leads_route ::
  "int option \<Rightarrow> string option \<Rightarrow> string option \<Rightarrow> string option \<Rightarrow> string option \<Rightarrow>
   string option \<Rightarrow> leads_table \<Rightarrow> exn + LeadRead list"
where
  "get_leads_route ident name src interest st sales t =
     (case those (map model_validate (get_leads ident name src interest st sales (SessionLocal t))) of
        None \<Rightarrow> Inl ResponseValidationError
      | Some rs \<Rightarrow> Inr rs)"

section \<open>The startup health check (dbconf.py)\<close>

text \<open>
  What the checks see of the outside: the process environment, whether the database accepts
  a connection, whether the migration scripts of \<^verbatim>\<open>alembic.ini\<close> load, the revision the
  database records and the head revision of the scripts, and the difference
  \<^verbatim>\<open>compare_metadata\<close> finds between the models and the database. \<open>performed\<close> is the
  trace of the checks carried out, oldest first: every call of a check function adds itself.
\<close>

datatype check = Connectivity | MigrationCurrency | SchemaDrift

record world =
  environ :: "(string \<times> string) list"
  db_reachable :: bool
  scripts_load :: bool
  current_rev :: "string option"
  head_rev :: "string option"
  schema_diff :: "string list"
  performed :: "check list"

definition did :: "check \<Rightarrow> world \<Rightarrow> world" where
  "did c w = w\<lparr>performed := performed w @ [c]\<rparr>"

definition getenv :: "world \<Rightarrow> string \<Rightarrow> string option" where
  "getenv w k = map_of (environ w) k"

text \<open>Python's truth value of \<^verbatim>\<open>os.getenv(...)\<close>: \<^verbatim>\<open>None\<close> and the empty string are false.\<close>

definition truthy :: "string option \<Rightarrow> bool" where
  "truthy v = (case v of None \<Rightarrow> False | Some s \<Rightarrow> s \<noteq> [])"

text \<open>\<^verbatim>\<open>engine.connect()\<close> raises \<^verbatim>\<open>SQLAlchemyError\<close> when the database is unreachable.\<close>

definition test_connection :: "world \<Rightarrow> bool \<times> world" where
  "test_connection w = (if db_reachable w then (True, did Connectivity w) else (False, did Connectivity w))"

definition check_migration_status :: "world \<Rightarrow> bool \<times> world" where
  "check_migration_status w =
     (if \<not> scripts_load w then (False, did MigrationCurrency w)
      else if \<not> db_reachable w then (False, did MigrationCurrency w)
      else if current_rev w \<noteq> head_rev w then (False, did MigrationCurrency w)
      else (True, did MigrationCurrency w))"

definition check_schema_drift :: "world \<Rightarrow> bool \<times> world" where
  "check_schema_drift w =
     (if \<not> db_reachable w then (False, did SchemaDrift w)
      else if schema_diff w \<noteq> [] then (False, did SchemaDrift w)
      else (True, did SchemaDrift w))"

definition comprehensive_db_check :: "world \<Rightarrow> bool \<times> world" where
  "comprehensive_db_check w =
     (if truthy (getenv w ''RAILWAY_ENVIRONMENT_NAME'') then (True, w)
      else
        (case test_connection w of (ok1, w1) \<Rightarrow>
           if \<not> ok1 then (False, w1)
           else
             (case check_migration_status w1 of (ok2, w2) \<Rightarrow>
                if \<not> ok2 then (False, w2)
                else
                  (case check_schema_drift w2 of (ok3, w3) \<Rightarrow>
                     if \<not> ok3 then (False, w3) else (True, w3)))))"

section \<open>Startup (main.py)\<close>

definition startup_event :: "world \<Rightarrow> (exn + unit) \<times> world" where
  "startup_event w =
     (case comprehensive_db_check w of (ok, w') \<Rightarrow>
        if \<not> ok
        then (Inl (RuntimeError ''Database issues detected - may have unexpected behaviors''), w')
        else (Inr (), w'))"

text \<open>
  The \<^verbatim>\<open>__main__\<close> block: \<^verbatim>\<open>startup_event()\<close>, then
  \<^verbatim>\<open>port = int(os.getenv("PORT", 8888))\<close>, then \<^verbatim>\<open>uvicorn.run(app, ..., port=port)\<close>, which
  serves until the process ends. \<^verbatim>\<open>main.py\<close> does not import \<^verbatim>\<open>os\<close>, so the second
  statement raises \<^verbatim>\<open>NameError\<close>.
\<close>

datatype outcome = Crashed exn | Serving nat

definition main :: "world \<Rightarrow> outcome \<times> world" where
  "main w =
     (case startup_event w of
        (Inl e, w') \<Rightarrow> (Crashed e, w')
      | (Inr u, w') \<Rightarrow> (Crashed (NameError ''os''), w'))"

section \<open>Notions of the specification\<close>

text \<open>
  The environment counts as managed hosting when \<^verbatim>\<open>os.getenv("RAILWAY_ENVIRONMENT_NAME")\<close>
  is true for Python: the variable is set to a non-empty value.
\<close>

definition managed_hosting :: "world \<Rightarrow> bool" where
  "managed_hosting w = truthy (getenv w ''RAILWAY_ENVIRONMENT_NAME'')"

text \<open>A step of the health check passes when its function returns \<^verbatim>\<open>True\<close>.\<close>

definition connectivity_ok :: "world \<Rightarrow> bool" where
  "connectivity_ok w = fst (test_connection w)"

definition migration_ok :: "world \<Rightarrow> bool" where
  "migration_ok w = fst (check_migration_status w)"

definition drift_ok :: "world \<Rightarrow> bool" where
  "drift_ok w = fst (check_schema_drift w)"

text \<open>The world after the checks \<open>cs\<close> were carried out, in this order.\<close>

definition after_checks :: "check list \<Rightarrow> world \<Rightarrow> world" where
  "after_checks cs w = w\<lparr>performed := performed w @ cs\<rparr>"

text \<open>A lead matches a filter parameter when the parameter is absent or equals its column.\<close>

definition matches :: "string option \<Rightarrow> string option \<Rightarrow> bool" where
  "matches param v = (case param of None \<Rightarrow> True | Some x \<Rightarrow> v = Some x)"

text \<open>
  The leads that a request without \<^verbatim>\<open>id\<close> asks for: the stored leads that match every
  parameter that was given.
\<close>

definition selected ::
  "string option \<Rightarrow> string option \<Rightarrow> string option \<Rightarrow> string option \<Rightarrow> string option \<Rightarrow>
   leads_table \<Rightarrow> lead list"
where
  "selected name src interest st sales t =
     filter (\<lambda>l. matches name (lead_name l) \<and> matches src (source l) \<and>
                 matches interest (interest_level l) \<and> matches st (status l) \<and>
                 matches sales (salesperson l)) t"

text \<open>
  A row has an integer id when the column \<^verbatim>\<open>Lead ID\<close> is present, its field is not
  missing, and \<^verbatim>\<open>int\<close> parses it.
\<close>

definition has_int_id :: "platform \<Rightarrow> row \<Rightarrow> bool" where
  "has_int_id p r =
     (case r ''Lead ID'' of Some (Some s) \<Rightarrow> int_of_str p s \<noteq> None | _ \<Rightarrow> False)"

text \<open>A row is merged when neither the construction of its Lead nor the merge raises.\<close>

definition merged :: "platform \<Rightarrow> row \<Rightarrow> bool" where
  "merged p r = (case Lead p r of Inl e \<Rightarrow> False | Inr l \<Rightarrow> binds_key p (lead_id l))"

text \<open>
  The data rows of a file that the reader accepts line by line: the lines after the header
  that are not empty, each as a dict over the header's names.
\<close>

fun fields_of :: "csv_line list \<Rightarrow> string list list" where
  "fields_of [] = []"
| "fields_of (Fields vals # rest) = vals # fields_of rest"
| "fields_of (Malformed # rest) = fields_of rest"

definition data_rows :: "csv_line list \<Rightarrow> row list" where
  "data_rows ls =
     (case ls of
        Fields names # rest \<Rightarrow> map (make_row names) (filter (\<lambda>vals. vals \<noteq> []) (fields_of rest))
      | _ \<Rightarrow> [])"

text \<open>The leads of the rows that are merged, and what is printed for the other rows.\<close>

fun leads_of :: "platform \<Rightarrow> row list \<Rightarrow> lead list" where
  "leads_of p [] = []"
| "leads_of p (r # rs) =
     (case Lead p r of
        Inl e \<Rightarrow> leads_of p rs
      | Inr l \<Rightarrow> if binds_key p (lead_id l) then l # leads_of p rs else leads_of p rs)"

fun skipped_of :: "platform \<Rightarrow> row list \<Rightarrow> printed list" where
  "skipped_of p [] = []"
| "skipped_of p (r # rs) =
     (case Lead p r of
        Inl e \<Rightarrow> SkippingInvalidRow e # skipped_of p rs
      | Inr l \<Rightarrow>
          if binds_key p (lead_id l) then skipped_of p rs
          else SkippingInvalidRow DriverError # skipped_of p rs)"

text \<open>The session after the leads \<open>ks\<close> were merged one after the other.\<close>

definition merge_all :: "session \<Rightarrow> lead list \<Rightarrow> session" where
  "merge_all db ks = foldl attach db ks"

text \<open>The leads among \<open>ks\<close> whose key is not stored in the table \<open>t\<close>.\<close>

definition unstored :: "leads_table \<Rightarrow> lead list \<Rightarrow> lead list" where
  "unstored t ks = filter (\<lambda>l. lead_id l \<notin> set (map lead_id t)) ks"

section \<open>Example data\<close>

subsection \<open>A platform\<close>

text \<open>
  The platform of the examples: CPython 3.11 with its default limit of 4300 digits, and
  PostgreSQL reached through psycopg2, as far as ASCII text goes.

  \<^verbatim>\<open>int(s)\<close> on ASCII text: whitespace (the characters 9 to 13 and 32) is stripped at both
  ends, one sign is allowed, the digits may be grouped by single underscores between
  digits, and a text of more than 4300 digits is refused.
\<close>

definition is_space :: "char \<Rightarrow> bool" where
  "is_space c = (let n = (of_char c :: nat) in (9 \<le> n \<and> n \<le> 13) \<or> n = 32)"

definition strip :: "string \<Rightarrow> string" where
  "strip s = rev (dropWhile is_space (rev (dropWhile is_space s)))"

definition digit_val :: "char \<Rightarrow> nat option" where
  "digit_val c = (let n = (of_char c :: nat) in if 48 \<le> n \<and> n \<le> 57 then Some (n - 48) else None)"

fun digits :: "nat \<Rightarrow> string \<Rightarrow> nat option" where
  "digits acc [] = Some acc"
| "digits acc (c # cs) =
     (if c = CHR ''_'' then
        (case cs of
           [] \<Rightarrow> None
         | d # ds \<Rightarrow> (case digit_val d of None \<Rightarrow> None | Some v \<Rightarrow> digits (10 * acc + v) ds))
      else (case digit_val c of None \<Rightarrow> None | Some v \<Rightarrow> digits (10 * acc + v) cs))"

definition unsigned :: "string \<Rightarrow> nat option" where
  "unsigned s =
     (if 4300 < length (filter (\<lambda>c. digit_val c \<noteq> None) s) then None
      else
        (case s of
           [] \<Rightarrow> None
         | d # ds \<Rightarrow> (case digit_val d of None \<Rightarrow> None | Some v \<Rightarrow> digits v ds)))"

definition ascii_int :: "string \<Rightarrow> int option" where
  "ascii_int s =
     (case strip s of
        [] \<Rightarrow> None
      | c # cs \<Rightarrow>
          (if c = CHR ''-'' then map_option (\<lambda>n. - int n) (unsigned cs)
           else if c = CHR ''+'' then map_option int (unsigned cs)
           else map_option int (unsigned (c # cs))))"

text \<open>
  A column \<^verbatim>\<open>INTEGER\<close> holds 32 bits. A column \<^verbatim>\<open>VARCHAR(n)\<close> stores a text of at most
  \<open>n\<close> characters as it is, cuts a longer text whose excess is spaces, and refuses every
  other longer text; the driver refuses a text that holds the character 0.
\<close>

definition int4 :: "int \<Rightarrow> bool" where
  "int4 k = (- 2147483648 \<le> k \<and> k \<le> 2147483647)"

definition varchar :: "nat \<Rightarrow> string \<Rightarrow> string option" where
  "varchar n s =
     (if CHR 0x00 \<in> set s then None
      else if length s \<le> n then Some s
      else if list_all (\<lambda>c. c = CHR '' '') (drop n s) then Some (take n s)
      else None)"

definition cpython_postgresql :: platform where
  "cpython_postgresql =
     \<lparr>int_of_str = ascii_int, binds_key = (\<lambda>k. True), integer_column = int4,
      varchar_column = varchar\<rparr>"

subsection \<open>Worlds, leads and files\<close>

definition example_world :: world where
  "example_world =
     \<lparr>environ = [(''PORT'', ''8000'')], db_reachable = True, scripts_load = True,
      current_rev = Some ''a1'', head_rev = Some ''b2'', schema_diff = [''add_column''],
      performed = []\<rparr>"

definition ann :: lead where
  "ann = \<lparr>lead_id = 5, lead_name = Some ''Ann'', email = Some ''ann@example.com'',
          source = Some ''Web'', interest_level = Some ''High'', status = Some ''Open'',
          salesperson = Some ''Bo''\<rparr>"

definition bob :: lead where
  "bob = \<lparr>lead_id = 6, lead_name = Some ''Bob'', email = Some ''bob@example.com'',
          source = Some ''Web'', interest_level = Some ''Low'', status = Some ''Open'',
          salesperson = Some ''Cy''\<rparr>"

definition eve :: lead where
  "eve = \<lparr>lead_id = 7, lead_name = Some ''Eve'', email = None,
          source = Some ''Referral'', interest_level = None, status = Some ''Open'',
          salesperson = None\<rparr>"

definition only_ids :: upload where
  "only_ids = \<lparr>filename = Some ''leads.csv'', content_type = Some ''text/csv'',
               file_contents = Utf8 [Fields [''Lead ID''], Fields [''5'']]\<rparr>"

definition named :: "int \<Rightarrow> string option \<Rightarrow> lead" where
  "named i n = \<lparr>lead_id = i, lead_name = n, email = None, source = None, interest_level = None,
                status = None, salesperson = None\<rparr>"

definition bare :: lead where
  "bare = named 5 None"

definition mixed_csv :: "csv_line list" where
  "mixed_csv =
     [Fields [''Lead ID'', ''Lead Name''],
      Fields [''1'', ''Ann''],
      Fields [''x1'', ''Bad''],
      Fields [],
      Fields ['''', ''NoId''],
      Fields ['' 22 ''],
      Fields [''+3_0'', ''Cy'']]"

definition mixed_upload :: upload where
  "mixed_upload = \<lparr>filename = Some ''mixed.csv'', content_type = Some ''text/csv'',
                   file_contents = Utf8 mixed_csv\<rparr>"

definition broken_csv :: "csv_line list" where
  "broken_csv = [Fields [''Lead ID''], Fields [''1''], Fields [''2''], Malformed, Fields [''9'']]"

definition broken_upload :: upload where
  "broken_upload = \<lparr>filename = Some ''broken.csv'', content_type = Some ''text/csv'',
                    file_contents = Utf8 broken_csv\<rparr>"

definition dup_csv :: "csv_line list" where
  "dup_csv = [Fields [''Lead ID'', ''Lead Name''], Fields [''5'', ''A''], Fields [''5'', ''B'']]"

definition dup_upload :: upload where
  "dup_upload = \<lparr>filename = Some ''dup.csv'', content_type = Some ''text/csv'',
                 file_contents = Utf8 dup_csv\<rparr>"

definition wide_csv :: "csv_line list" where
  "wide_csv = [Fields [''Lead ID''], Fields [''1''], Fields [''2147483648'']]"

definition wide_upload :: upload where
  "wide_upload = \<lparr>filename = Some ''wide.csv'', content_type = Some ''text/csv'',
                  file_contents = Utf8 wide_csv\<rparr>"

section \<open>The session\<close>

lemma attach_keeps:
  "store (attach db l) = store db" "commits (attach db l) = commits db"
  by (simp_all add: attach_def)

lemma merge_all_keeps:
  "store (merge_all db ks) = store db" "commits (merge_all db ks) = commits db"
  unfolding merge_all_def by (induction ks arbitrary: db) (simp_all add: attach_keeps)

lemma merge_all_Nil [simp]: "merge_all db [] = db"
  by (simp add: merge_all_def)

lemma merge_all_Cons [simp]: "merge_all db (k # ks) = merge_all (attach db k) ks"
  by (simp add: merge_all_def)

lemma merge_all_append: "merge_all db (xs @ ys) = merge_all (merge_all db xs) ys"
  by (simp add: merge_all_def)

lemma added_merge_all: "added (merge_all db ks) = added db @ unstored (store db) ks"
proof (induction ks arbitrary: db)
  case Nil
  show ?case by (simp add: unstored_def)
next
  case (Cons k ks)
  have "added (merge_all (attach db k) ks) = added (attach db k) @ unstored (store db) ks"
    using Cons [of "attach db k"] by (simp add: attach_keeps)
  then show ?case by (simp add: attach_def unstored_def)
qed

lemma merge_succeeds: "binds_key p (lead_id l) \<Longrightarrow> merge p db l = Inr (attach db l)"
  by (simp add: merge_def)

lemma merge_raises: "\<not> binds_key p (lead_id l) \<Longrightarrow> merge p db l = Inl DriverError"
  by (simp add: merge_def)

lemma merge_ok_iff: "(\<exists>db'. merge p db l = Inr db') \<longleftrightarrow> binds_key p (lead_id l)"
  by (simp add: merge_def)

subsection \<open>The flush keeps the keys\<close>

lemma update_row_id: "update_row p l = Some r \<Longrightarrow> lead_id r = lead_id l"
  by (auto simp: update_row_def split: option.splits)

lemma insert_row_id: "insert_row p l = Some r \<Longrightarrow> lead_id r = lead_id l"
  by (auto simp: insert_row_def update_row_id split: if_splits)

lemma those_map_keys:
  assumes "those (map f xs) = Some ys"
      and "\<And>x r. f x = Some r \<Longrightarrow> lead_id r = lead_id x"
  shows "map lead_id ys = map lead_id xs"
  using assms(1)
proof (induction xs arbitrary: ys)
  case Nil
  then show ?case by simp
next
  case (Cons x xs)
  then obtain r rs where r: "f x = Some r" and rs: "those (map f xs) = Some rs" and ys: "ys = r # rs"
    by (auto split: option.splits)
  from rs have "map lead_id rs = map lead_id xs" by (rule Cons.IH)
  with assms(2) [OF r] ys show ?case by simp
qed

lemma keys_update_table: "map lead_id (update_table u t) = map lead_id t"
  by (induction t) (simp_all add: update_table_def)

lemma keys_update_all: "map lead_id (foldl (\<lambda>t u. update_table u t) t us) = map lead_id t"
  by (induction us arbitrary: t) (simp_all add: keys_update_table)

lemma flush_keys:
  assumes "flush p db = Some t'"
  shows "map lead_id t' = map lead_id (store db) @ map lead_id (added db)"
    and "distinct (map lead_id (added db))"
proof -
  from assms show d: "distinct (map lead_id (added db))"
    by (simp add: flush_def split: if_splits)
  from assms d obtain us ns where
      us: "those (map (update_row p) (dirty db)) = Some us"
    and ns: "those (map (insert_row p) (added db)) = Some ns"
    and t': "t' = foldl (\<lambda>t u. update_table u t) (store db) us @ ns"
    by (auto simp: flush_def split: option.splits)
  from ns have "map lead_id ns = map lead_id (added db)"
    by (rule those_map_keys) (rule insert_row_id)
  with t' show "map lead_id t' = map lead_id (store db) @ map lead_id (added db)"
    by (simp add: keys_update_all)
qed

lemma pk_unique_flush:
  assumes "pk_unique t"
      and "flush p (merge_all (SessionLocal t) ks) = Some t'"
  shows "pk_unique t'"
proof -
  let ?db = "merge_all (SessionLocal t) ks"
  have st: "store ?db = t" by (simp add: merge_all_keeps SessionLocal_def)
  have ad: "added ?db = unstored t ks" by (simp add: added_merge_all SessionLocal_def)
  from flush_keys [OF assms(2)] st ad
  have keys: "map lead_id t' = map lead_id t @ map lead_id (unstored t ks)"
    and d: "distinct (map lead_id (unstored t ks))"
    by simp_all
  have "set (map lead_id t) \<inter> set (map lead_id (unstored t ks)) = {}"
    unfolding unstored_def by (auto simp: image_iff)
  with assms(1) d keys show ?thesis by (simp add: pk_unique_def)
qed

subsection \<open>The commit\<close>

lemma commit_flushed:
  "flush p db = Some t \<Longrightarrow>
   commit p db = (Inr (), db\<lparr>store := t, dirty := [], added := [], commits := commits db + 1\<rparr>)"
  by (simp add: commit_def)

lemma commit_refused:
  "flush p db = None \<Longrightarrow>
   commit p db = (Inl CommitError, db\<lparr>dirty := [], added := [], commits := commits db + 1\<rparr>)"
  by (simp add: commit_def)

lemma commit_counts: "commits (snd (commit p db)) = commits db + 1"
  by (simp add: commit_def split: option.splits)

lemma commit_raises: "commit p db = (Inl e, db') \<Longrightarrow> store db' = store db \<and> e = CommitError"
  by (auto simp: commit_def split: option.splits)

lemma duplicate_key_refused:
  "\<not> distinct (map lead_id (added db)) \<Longrightarrow> flush p db = None"
  by (simp add: flush_def)

section \<open>CSV ingestion\<close>

subsection \<open>The rows\<close>

lemma Lead_ok_iff: "(\<exists>l. Lead p r = Inr l) \<longleftrightarrow> has_int_id p r"
  by (auto simp: Lead_def has_int_id_def split: option.splits)

lemma Lead_raises_iff: "(\<exists>e. Lead p r = Inl e) \<longleftrightarrow> \<not> has_int_id p r"
  by (auto simp: Lead_def has_int_id_def split: option.splits)

lemma merged_iff:
  "merged p r \<longleftrightarrow> (\<exists>l. Lead p r = Inr l \<and> (\<exists>db'. merge p db l = Inr db'))"
  by (cases "Lead p r") (simp_all add: merged_def merge_ok_iff)

lemma merged_has_int_id: "merged p r \<Longrightarrow> has_int_id p r"
  using Lead_ok_iff [of p r] by (cases "Lead p r") (auto simp: merged_def)

lemma leads_of_step:
  "merged p r \<Longrightarrow> \<exists>l. Lead p r = Inr l \<and> binds_key p (lead_id l) \<and> leads_of p (r # rs) = l # leads_of p rs"
  "\<not> merged p r \<Longrightarrow> leads_of p (r # rs) = leads_of p rs"
  by (cases "Lead p r"; simp add: merged_def)+

lemma length_leads_of: "length (leads_of p rs) = length (filter (merged p) rs)"
proof (induction rs)
  case Nil
  show ?case by simp
next
  case (Cons r rs)
  show ?case
  proof (cases "merged p r")
    case True
    then obtain l where "leads_of p (r # rs) = l # leads_of p rs"
      using leads_of_step(1) by blast
    with True Cons show ?thesis by simp
  next
    case False
    with Cons leads_of_step(2) [OF False] show ?thesis by simp
  qed
qed

lemma length_skipped_of: "length (skipped_of p rs) = length (filter (\<lambda>r. \<not> merged p r) rs)"
proof (induction rs)
  case Nil
  show ?case by simp
next
  case (Cons r rs)
  show ?case
  proof (cases "Lead p r")
    case (Inl e)
    with Cons show ?thesis by (simp add: merged_def)
  next
    case (Inr l)
    with Cons show ?thesis by (simp add: merged_def)
  qed
qed

lemma leads_of_append: "leads_of p (xs @ ys) = leads_of p xs @ leads_of p ys"
  by (induction xs) (auto split: sum.splits)

lemma skipped_of_append: "skipped_of p (xs @ ys) = skipped_of p xs @ skipped_of p ys"
  by (induction xs) (auto split: sum.splits)

subsection \<open>The loop\<close>

lemma csv_loop_rows:
  "csv_loop p (map Inr rs) db n out =
     (Inr (n + length (leads_of p rs)), merge_all db (leads_of p rs), out @ skipped_of p rs)"
proof (induction rs arbitrary: db n out)
  case Nil
  show ?case by simp
next
  case (Cons r rs)
  show ?case
  proof (cases "Lead p r")
    case (Inl e)
    then show ?thesis by (simp add: Cons)
  next
    case (Inr l)
    then show ?thesis by (cases "binds_key p (lead_id l)") (simp_all add: Cons merge_def)
  qed
qed

lemma csv_loop_error:
  "csv_loop p (map Inr rs @ Inl e # rest) db n out =
     (Inl e, merge_all db (leads_of p rs), out @ skipped_of p rs)"
proof (induction rs arbitrary: db n out)
  case Nil
  show ?case by simp
next
  case (Cons r rs)
  show ?case
  proof (cases "Lead p r")
    case (Inl e)
    then show ?thesis by (simp add: Cons)
  next
    case (Inr l)
    then show ?thesis by (cases "binds_key p (lead_id l)") (simp_all add: Cons merge_def)
  qed
qed

lemma csv_loop_never_commits:
  "csv_loop p items db n out = (r, db', out') \<Longrightarrow> store db' = store db \<and> commits db' = commits db"
proof (induction p items db n out rule: csv_loop.induct)
  case (1 p db processed out)
  then show ?case by simp
next
  case (2 p e rest db processed out)
  then show ?case by simp
next
  case (3 p row rest db processed out)
  show ?case
  proof (cases "Lead p row")
    case (Inl e)
    with 3 show ?thesis by simp
  next
    case (Inr l)
    show ?thesis
    proof (cases "merge p db l")
      case (Inl e)
      with 3 \<open>Lead p row = Inr l\<close> show ?thesis by simp
    next
      case merged: (Inr db1)
      then have "db1 = attach db l" by (simp add: merge_def split: if_splits)
      with 3 \<open>Lead p row = Inr l\<close> merged show ?thesis by (simp add: attach_keeps)
    qed
  qed
qed

subsection \<open>The reader\<close>

lemma dict_rows_readable:
  "Malformed \<notin> set rest \<Longrightarrow>
   dict_rows names rest = map Inr (map (make_row names) (filter (\<lambda>vals. vals \<noteq> []) (fields_of rest)))"
  by (induction names rest rule: dict_rows.induct) auto

lemma DictReader_readable:
  "Malformed \<notin> set ls \<Longrightarrow> DictReader ls = map Inr (data_rows ls)"
proof (cases ls)
  case Nil
  then show ?thesis by (simp add: DictReader_def data_rows_def)
next
  case (Cons a rest)
  assume "Malformed \<notin> set ls"
  with Cons show ?thesis
    by (cases a) (simp_all add: DictReader_def data_rows_def dict_rows_readable)
qed

lemma dict_rows_malformed:
  "Malformed \<in> set rest \<Longrightarrow> \<exists>rs. dict_rows names rest = map Inr rs @ [Inl CsvError]"
proof (induction names rest rule: dict_rows.induct)
  case (1 names)
  then show ?case by simp
next
  case (2 names rest)
  have "dict_rows names (Malformed # rest) = map Inr [] @ [Inl CsvError]" by simp
  then show ?case by blast
next
  case (3 names vals rest)
  then obtain rs where rs: "dict_rows names rest = map Inr rs @ [Inl CsvError]" by auto
  show ?case
  proof (cases "vals = []")
    case True
    with rs show ?thesis by auto
  next
    case False
    with rs have "dict_rows names (Fields vals # rest) =
        map Inr (make_row names vals # rs) @ [Inl CsvError]" by simp
    then show ?thesis by blast
  qed
qed

lemma DictReader_malformed:
  "Malformed \<in> set ls \<Longrightarrow> \<exists>rs. DictReader ls = map Inr rs @ [Inl CsvError]"
proof (cases ls)
  case Nil
  assume "Malformed \<in> set ls"
  with Nil show ?thesis by simp
next
  case (Cons a rest)
  assume m: "Malformed \<in> set ls"
  show ?thesis
  proof (cases a)
    case (Fields names)
    with m Cons have "Malformed \<in> set rest" by simp
    then obtain rs where "dict_rows names rest = map Inr rs @ [Inl CsvError]"
      using dict_rows_malformed by blast
    with Cons Fields show ?thesis by (simp add: DictReader_def)
  next
    case Malformed
    with Cons have "DictReader ls = map Inr [] @ [Inl CsvError]" by (simp add: DictReader_def)
    then show ?thesis by blast
  qed
qed

subsection \<open>A whole file\<close>

lemma process_csv_data_flushed:
  assumes "Malformed \<notin> set ls"
      and "flush p (merge_all db (leads_of p (data_rows ls))) = Some t'"
  shows "process_csv_data p (Utf8 ls) db =
           (Inr (length (filter (merged p) (data_rows ls))),
            (merge_all db (leads_of p (data_rows ls)))
              \<lparr>store := t', dirty := [], added := [], commits := commits db + 1\<rparr>,
            skipped_of p (data_rows ls))"
  using assms
  by (simp add: process_csv_data_def DictReader_readable csv_loop_rows commit_flushed
      merge_all_keeps length_leads_of)

lemma process_csv_data_refused:
  assumes "Malformed \<notin> set ls"
      and "flush p (merge_all db (leads_of p (data_rows ls))) = None"
  shows "process_csv_data p (Utf8 ls) db =
           (Inl CommitError,
            (merge_all db (leads_of p (data_rows ls)))
              \<lparr>dirty := [], added := [], commits := commits db + 1\<rparr>,
            skipped_of p (data_rows ls))"
  using assms
  by (simp add: process_csv_data_def DictReader_readable csv_loop_rows commit_refused
      merge_all_keeps)

lemma process_csv_data_malformed:
  "Malformed \<in> set ls \<Longrightarrow> \<exists>ks out. process_csv_data p (Utf8 ls) db =
      (Inl CsvError, merge_all db ks, out)"
proof -
  assume "Malformed \<in> set ls"
  then obtain rs where "DictReader ls = map Inr rs @ [Inl CsvError]"
    using DictReader_malformed by blast
  then have "process_csv_data p (Utf8 ls) db =
      (Inl CsvError, merge_all db (leads_of p rs), skipped_of p rs)"
    by (simp add: process_csv_data_def csv_loop_error)
  then show ?thesis by blast
qed

lemma process_csv_data_raises:
  "process_csv_data p c db = (Inl e, db', out) \<Longrightarrow> store db' = store db"
proof (cases c)
  case NotUtf8
  assume "process_csv_data p c db = (Inl e, db', out)"
  with NotUtf8 show ?thesis by (simp add: process_csv_data_def)
next
  case (Utf8 ls)
  assume a: "process_csv_data p c db = (Inl e, db', out)"
  obtain r d q where loop: "csv_loop p (DictReader ls) db 0 [] = (r, d, q)"
    by (cases "csv_loop p (DictReader ls) db 0 []") auto
  then have d: "store d = store db" using csv_loop_never_commits by blast
  show ?thesis
  proof (cases r)
    case (Inl x)
    with a Utf8 loop have "d = db'" by (simp add: process_csv_data_def)
    with d show ?thesis by simp
  next
    case (Inr n)
    obtain c1 d1 where c: "commit p d = (c1, d1)" by (cases "commit p d") auto
    with a Utf8 loop Inr have "c1 = Inl e" "d1 = db'"
      by (cases c1; simp add: process_csv_data_def)+
    with c commit_raises have "store db' = store d" by blast
    with d show ?thesis by simp
  qed
qed

lemma upload_file_raises:
  "upload_file p file db = (Inl e, db', out) \<Longrightarrow> store db' = store db"
proof -
  assume a: "upload_file p file db = (Inl e, db', out)"
  show ?thesis
  proof (cases "content_type file = Some ''text/csv''")
    case True
    obtain r d q where pr: "process_csv_data p (file_contents file) db = (r, d, q)"
      by (cases "process_csv_data p (file_contents file) db") auto
    with a True obtain x where "r = Inl x" "d = db'"
      by (cases r) (auto simp: upload_file_def)
    with pr process_csv_data_raises show ?thesis by blast
  next
    case False
    with a show ?thesis by (auto simp: upload_file_def split: if_splits)
  qed
qed

lemma post_files_raises: "fst (post_files p file t) = Inl e \<Longrightarrow> snd (post_files p file t) = t"
proof -
  assume a: "fst (post_files p file t) = Inl e"
  obtain r d q where u: "upload_file p file (SessionLocal t) = (r, d, q)"
    by (cases "upload_file p file (SessionLocal t)") auto
  with a have "r = Inl e" by (simp add: post_files_def)
  with u upload_file_raises have "store d = store (SessionLocal t)" by blast
  with u show ?thesis by (simp add: post_files_def close_def SessionLocal_def)
qed

lemma upload_file_csv_answers:
  assumes "content_type file = Some ''text/csv''"
      and "fst (upload_file p file db) = Inr resp"
  shows "\<exists>ls. file_contents file = Utf8 ls \<and> Malformed \<notin> set ls \<and>
              flush p (merge_all db (leads_of p (data_rows ls))) \<noteq> None"
proof (cases "file_contents file")
  case NotUtf8
  with assms show ?thesis by (simp add: upload_file_def process_csv_data_def)
next
  case (Utf8 ls)
  have m: "Malformed \<notin> set ls"
  proof
    assume "Malformed \<in> set ls"
    then obtain ks out where
      "process_csv_data p (Utf8 ls) db = (Inl CsvError, merge_all db ks, out)"
      using process_csv_data_malformed by blast
    with assms Utf8 show False by (simp add: upload_file_def)
  qed
  have "flush p (merge_all db (leads_of p (data_rows ls))) \<noteq> None"
  proof
    assume "flush p (merge_all db (leads_of p (data_rows ls))) = None"
    with m have "fst (process_csv_data p (Utf8 ls) db) = Inl CommitError"
      by (simp add: process_csv_data_refused)
    with assms Utf8 show False by (simp add: upload_file_def split: prod.splits)
  qed
  with Utf8 m show ?thesis by simp
qed

section \<open>The example platform\<close>

lemma ascii_int_examples:
  "ascii_int ''1'' = Some 1" "ascii_int ''x1'' = None" "ascii_int [] = None"
  "ascii_int '' 22 '' = Some 22" "ascii_int ''+3_0'' = Some 30" "ascii_int ''2'' = Some 2"
  "ascii_int ''5'' = Some 5" "ascii_int ''9'' = Some 9"
  "ascii_int ''2147483648'' = Some 2147483648"
  by (simp_all add: ascii_int_def strip_def is_space_def unsigned_def digit_val_def)

lemma example_platform [simp]:
  "int_of_str cpython_postgresql = ascii_int"
  "binds_key cpython_postgresql k"
  "integer_column cpython_postgresql = int4"
  "varchar_column cpython_postgresql = varchar"
  by (simp_all add: cpython_postgresql_def)

lemma update_row_named:
  "update_row cpython_postgresql (named i None) = Some (named i None)"
  "update_row cpython_postgresql (named i (Some ''Ann'')) = Some (named i (Some ''Ann''))"
  "update_row cpython_postgresql (named i (Some ''Cy'')) = Some (named i (Some ''Cy''))"
  "update_row cpython_postgresql (named i (Some ''A'')) = Some (named i (Some ''A''))"
  "update_row cpython_postgresql (named i (Some ''B'')) = Some (named i (Some ''B''))"
  by (simp_all add: update_row_def string_column_def varchar_def named_def)

lemma Lead_mixed:
  "Lead cpython_postgresql (make_row [''Lead ID'', ''Lead Name''] [''1'', ''Ann'']) = Inr (named 1 (Some ''Ann''))"
  "Lead cpython_postgresql (make_row [''Lead ID'', ''Lead Name''] [''x1'', ''Bad'']) = Inl (ValueError ''x1'')"
  "Lead cpython_postgresql (make_row [''Lead ID'', ''Lead Name''] ['''', ''NoId'']) = Inl (ValueError [])"
  "Lead cpython_postgresql (make_row [''Lead ID'', ''Lead Name''] ['' 22 '']) = Inr (named 22 None)"
  "Lead cpython_postgresql (make_row [''Lead ID'', ''Lead Name''] [''+3_0'', ''Cy'']) = Inr (named 30 (Some ''Cy''))"
  "Lead cpython_postgresql (make_row [''Lead ID'', ''Lead Name''] [''5'', ''A'']) = Inr (named 5 (Some ''A''))"
  "Lead cpython_postgresql (make_row [''Lead ID'', ''Lead Name''] [''5'', ''B'']) = Inr (named 5 (Some ''B''))"
  by (simp_all add: Lead_def make_row_def row_get_def ascii_int_examples named_def)

lemma Lead_id_only:
  "Lead cpython_postgresql (make_row [''Lead ID''] [''1'']) = Inr (named 1 None)"
  "Lead cpython_postgresql (make_row [''Lead ID''] [''2'']) = Inr (named 2 None)"
  "Lead cpython_postgresql (make_row [''Lead ID''] [''5'']) = Inr (named 5 None)"
  "Lead cpython_postgresql (make_row [''Lead ID''] [''9'']) = Inr (named 9 None)"
  "Lead cpython_postgresql (make_row [''Lead ID''] [''2147483648'']) = Inr (named 2147483648 None)"
  by (simp_all add: Lead_def make_row_def row_get_def ascii_int_examples named_def)

lemma leads_of_mixed:
  "leads_of cpython_postgresql (data_rows mixed_csv) =
     [named 1 (Some ''Ann''), named 22 None, named 30 (Some ''Cy'')]"
  "skipped_of cpython_postgresql (data_rows mixed_csv) =
     [SkippingInvalidRow (ValueError ''x1''), SkippingInvalidRow (ValueError [])]"
  by (simp_all add: data_rows_def mixed_csv_def Lead_mixed)

lemma leads_of_dup:
  "leads_of cpython_postgresql (data_rows dup_csv) = [named 5 (Some ''A''), named 5 (Some ''B'')]"
  "skipped_of cpython_postgresql (data_rows dup_csv) = []"
  by (simp_all add: data_rows_def dup_csv_def Lead_mixed)

lemma leads_of_wide:
  "leads_of cpython_postgresql (data_rows wide_csv) = [named 1 None, named 2147483648 None]"
  by (simp add: data_rows_def wide_csv_def Lead_id_only)

lemma leads_of_pair:
  "leads_of cpython_postgresql (data_rows [Fields [''Lead ID''], Fields [''1''], Fields [''2'']]) =
     [named 1 None, named 2 None]"
  by (simp add: data_rows_def Lead_id_only)

lemma leads_of_only_ids:
  "leads_of cpython_postgresql (data_rows [Fields [''Lead ID''], Fields [''5'']]) = [named 5 None]"
  by (simp add: data_rows_def Lead_id_only)

section \<open>POST /files/: the content type\<close>

text \<open>
  Claim C4. An upload of content type \<^verbatim>\<open>application/json\<close> is answered with
  \<^verbatim>\<open>processed_count = 0\<close>: the handler prints "Unsupported file type", merges and commits
  nothing, leaves the table as it was, and every response it returns for such an upload has
  the count zero.
\<close>

theorem json_upload_processes_nothing:
  assumes "content_type file = Some ''application/json''"
  shows "upload_file p file db =
           (Inr \<lparr>resp_filename = filename file, processed_count = 0, resp_status = ''success''\<rparr>,
            db, [UnsupportedFileType]) \<and>
         post_files p file t =
           (Inr \<lparr>resp_filename = filename file, processed_count = 0, resp_status = ''success''\<rparr>, t) \<and>
         (\<forall>r. fst (upload_file p file db) = Inr r \<longrightarrow> processed_count r = 0)"
proof -
  have 1: "upload_file p file db =
           (Inr \<lparr>resp_filename = filename file, processed_count = 0, resp_status = ''success''\<rparr>,
            db, [UnsupportedFileType])"
    using assms by (simp add: upload_file_def)
  have 2: "post_files p file t =
           (Inr \<lparr>resp_filename = filename file, processed_count = 0, resp_status = ''success''\<rparr>, t)"
    using assms by (simp add: post_files_def upload_file_def close_def SessionLocal_def)
  have 3: "\<forall>r. fst (upload_file p file db) = Inr r \<longrightarrow> processed_count r = 0"
    by (auto simp: 1)
  from 1 2 3 show ?thesis by blast
qed

theorem json_upload_processes_nothing_witness:
  "post_files cpython_postgresql
     \<lparr>filename = Some ''leads.json'', content_type = Some ''application/json'',
      file_contents = Utf8 [Fields [''Lead ID''], Fields [''7'']]\<rparr> []
   = (Inr \<lparr>resp_filename = Some ''leads.json'', processed_count = 0, resp_status = ''success''\<rparr>, [])"
  using json_upload_processes_nothing
    [of "\<lparr>filename = Some ''leads.json'', content_type = Some ''application/json'',
                file_contents = Utf8 [Fields [''Lead ID''], Fields [''7'']]\<rparr>"
        cpython_postgresql _ "[]"]
  by simp

text \<open>
  Claim C1. The specification has an upload of any other content type answered with status
  400. The handler raises \<^verbatim>\<open>HTTPException(status_code=400)\<close> inside its own \<^verbatim>\<open>try\<close>, and
  the \<^verbatim>\<open>except Exception\<close> below catches it: what leaves the handler is the status 500
  whose detail quotes the 400. The theorem is the behaviour of the code.
\<close>

theorem unrecognized_type_is_wrapped_in_500:
  assumes "content_type file \<noteq> Some ''application/json''"
      and "content_type file \<noteq> Some ''text/csv''"
  shows "upload_file p file db =
           (Inl (HTTPException 500
                  (FailedToProcessFile (HTTPException 400 (Detail ''Unsupported file type'')))),
            db, [])"
  using assms by (simp add: upload_file_def)

theorem unrecognized_type_is_wrapped_in_500_witness:
  "map_sum status_code id
     (fst (post_files cpython_postgresql
             \<lparr>filename = Some ''photo.png'', content_type = Some ''image/png'',
              file_contents = NotUtf8\<rparr> [])) = Inl (Some 500)"
  using unrecognized_type_is_wrapped_in_500
    [of "\<lparr>filename = Some ''photo.png'', content_type = Some ''image/png'',
                        file_contents = NotUtf8\<rparr>" cpython_postgresql "SessionLocal []"]
  by (simp add: post_files_def)

section \<open>POST /files/: a CSV file\<close>

lemma post_files_flushed:
  assumes "content_type file = Some ''text/csv''"
      and "file_contents file = Utf8 ls"
      and "Malformed \<notin> set ls"
      and "flush p (merge_all (SessionLocal t) (leads_of p (data_rows ls))) = Some t'"
  shows "post_files p file t =
           (Inr \<lparr>resp_filename = filename file,
                 processed_count = length (filter (merged p) (data_rows ls)),
                 resp_status = ''success''\<rparr>, t')"
  using assms
  by (simp add: post_files_def upload_file_def process_csv_data_flushed close_def)

lemma post_files_refused:
  assumes "content_type file = Some ''text/csv''"
      and "file_contents file = Utf8 ls"
      and "Malformed \<notin> set ls"
      and "flush p (merge_all (SessionLocal t) (leads_of p (data_rows ls))) = None"
  shows "post_files p file t = (Inl (HTTPException 500 (FailedToProcessFile CommitError)), t)"
  using assms
  by (simp add: post_files_def upload_file_def process_csv_data_refused close_def
      merge_all_keeps SessionLocal_def)

lemma pk_unique_post_files: "pk_unique t \<Longrightarrow> pk_unique (snd (post_files p file t))"
proof (cases "fst (post_files p file t)")
  case (Inl e)
  assume "pk_unique t"
  with post_files_raises [OF Inl] show ?thesis by simp
next
  case (Inr resp)
  assume pk: "pk_unique t"
  show ?thesis
  proof (cases "content_type file = Some ''text/csv''")
    case False
    then have "snd (post_files p file t) = t"
      by (simp add: post_files_def upload_file_def close_def SessionLocal_def)
    with pk show ?thesis by simp
  next
    case True
    from Inr have "fst (upload_file p file (SessionLocal t)) = Inr resp"
      by (simp add: post_files_def split: prod.splits)
    with True obtain ls t' where ls: "file_contents file = Utf8 ls" "Malformed \<notin> set ls"
      and f: "flush p (merge_all (SessionLocal t) (leads_of p (data_rows ls))) = Some t'"
      using upload_file_csv_answers by blast
    from post_files_flushed [OF True ls f] have "snd (post_files p file t) = t'" by simp
    with pk_unique_flush [OF pk f] show ?thesis by simp
  qed
qed

text \<open>
  Claim C2. For a CSV upload, whenever the handler answers, \<^verbatim>\<open>processed_count\<close> is the
  number of data rows that are merged, which are exactly the rows for which neither the
  construction of the Lead nor \<^verbatim>\<open>db.merge\<close> raises; and the handler answers so whenever
  the reader accepts the file and the commit goes through. Every other row is printed as
  skipped and the loop goes on. A row without an integer id is such a row, and a row that
  is not merged, wherever it stands, changes neither the count nor the session.
\<close>

theorem processed_count_counts_merged_rows:
  assumes "content_type file = Some ''text/csv''"
  shows "(\<forall>resp. fst (upload_file p file db) = Inr resp \<longrightarrow>
            (\<exists>ls. file_contents file = Utf8 ls \<and> Malformed \<notin> set ls \<and>
                  processed_count resp = length (filter (merged p) (data_rows ls)))) \<and>
         (\<forall>ls t'. file_contents file = Utf8 ls \<and> Malformed \<notin> set ls \<and>
                   flush p (merge_all db (leads_of p (data_rows ls))) = Some t' \<longrightarrow>
            upload_file p file db =
              (Inr \<lparr>resp_filename = filename file,
                    processed_count = length (filter (merged p) (data_rows ls)),
                    resp_status = ''success''\<rparr>,
               (merge_all db (leads_of p (data_rows ls)))
                 \<lparr>store := t', dirty := [], added := [], commits := commits db + 1\<rparr>,
               skipped_of p (data_rows ls))) \<and>
         (\<forall>rs. length (skipped_of p rs) = length (filter (\<lambda>r. \<not> merged p r) rs)) \<and>
         (\<forall>r. merged p r \<longleftrightarrow> (\<exists>l. Lead p r = Inr l \<and> (\<exists>db'. merge p db l = Inr db'))) \<and>
         (\<forall>r. \<not> has_int_id p r \<longrightarrow> \<not> merged p r \<and> (\<exists>e. Lead p r = Inl e)) \<and>
         (\<forall>r xs ys. \<not> merged p r \<longrightarrow>
            fst (csv_loop p (map Inr (xs @ r # ys)) db 0 []) =
              fst (csv_loop p (map Inr (xs @ ys)) db 0 []) \<and>
            fst (snd (csv_loop p (map Inr (xs @ r # ys)) db 0 [])) =
              fst (snd (csv_loop p (map Inr (xs @ ys)) db 0 [])))"
proof -
  have 1: "upload_file p file db =
              (Inr \<lparr>resp_filename = filename file,
                    processed_count = length (filter (merged p) (data_rows ls)),
                    resp_status = ''success''\<rparr>,
               (merge_all db (leads_of p (data_rows ls)))
                 \<lparr>store := t', dirty := [], added := [], commits := commits db + 1\<rparr>,
               skipped_of p (data_rows ls))"
    if "file_contents file = Utf8 ls" "Malformed \<notin> set ls"
       "flush p (merge_all db (leads_of p (data_rows ls))) = Some t'" for ls t'
    using assms that by (simp add: upload_file_def process_csv_data_flushed)
  have 2: "\<exists>ls. file_contents file = Utf8 ls \<and> Malformed \<notin> set ls \<and>
                  processed_count resp = length (filter (merged p) (data_rows ls))"
    if r: "fst (upload_file p file db) = Inr resp" for resp
  proof -
    from assms r obtain ls t' where ls: "file_contents file = Utf8 ls" "Malformed \<notin> set ls"
        and f: "flush p (merge_all db (leads_of p (data_rows ls))) = Some t'"
      using upload_file_csv_answers by blast
    from 1 [OF ls f] r have "processed_count resp = length (filter (merged p) (data_rows ls))"
      by auto
    with ls show ?thesis by blast
  qed
  have 3: "\<forall>r. merged p r \<longleftrightarrow> (\<exists>l. Lead p r = Inr l \<and> (\<exists>db'. merge p db l = Inr db'))"
    using merged_iff by blast
  have 4: "\<forall>r. \<not> has_int_id p r \<longrightarrow> \<not> merged p r \<and> (\<exists>e. Lead p r = Inl e)"
    using merged_has_int_id Lead_raises_iff by blast
  have 5: "\<forall>r xs ys. \<not> merged p r \<longrightarrow>
            fst (csv_loop p (map Inr (xs @ r # ys)) db 0 []) =
              fst (csv_loop p (map Inr (xs @ ys)) db 0 []) \<and>
            fst (snd (csv_loop p (map Inr (xs @ r # ys)) db 0 [])) =
              fst (snd (csv_loop p (map Inr (xs @ ys)) db 0 []))"
  proof (intro allI impI)
    fix r xs ys
    assume "\<not> merged p r"
    then have "leads_of p (r # ys) = leads_of p ys"
      by (rule leads_of_step(2))
    then have "leads_of p (xs @ r # ys) = leads_of p (xs @ ys)"
      by (simp only: leads_of_append)
    then show "fst (csv_loop p (map Inr (xs @ r # ys)) db 0 []) =
              fst (csv_loop p (map Inr (xs @ ys)) db 0 []) \<and>
            fst (snd (csv_loop p (map Inr (xs @ r # ys)) db 0 [])) =
              fst (snd (csv_loop p (map Inr (xs @ ys)) db 0 []))"
      unfolding csv_loop_rows by simp
  qed
  have a: "\<forall>resp. fst (upload_file p file db) = Inr resp \<longrightarrow>
            (\<exists>ls. file_contents file = Utf8 ls \<and> Malformed \<notin> set ls \<and>
                  processed_count resp = length (filter (merged p) (data_rows ls)))"
    using 2 by blast
  have b: "\<forall>ls t'. file_contents file = Utf8 ls \<and> Malformed \<notin> set ls \<and>
                   flush p (merge_all db (leads_of p (data_rows ls))) = Some t' \<longrightarrow>
            upload_file p file db =
              (Inr \<lparr>resp_filename = filename file,
                    processed_count = length (filter (merged p) (data_rows ls)),
                    resp_status = ''success''\<rparr>,
               (merge_all db (leads_of p (data_rows ls)))
                 \<lparr>store := t', dirty := [], added := [], commits := commits db + 1\<rparr>,
               skipped_of p (data_rows ls))"
    using 1 by blast
  have c: "\<forall>rs. length (skipped_of p rs) = length (filter (\<lambda>r. \<not> merged p r) rs)"
    by (simp add: length_skipped_of)
  show ?thesis
    by (intro conjI) (rule a, rule b, rule c, rule 3, rule 4, rule 5)
qed

lemma flush_mixed:
  "flush cpython_postgresql
     (merge_all (SessionLocal []) [named 1 (Some ''Ann''), named 22 None, named 30 (Some ''Cy'')]) =
   Some [named 1 (Some ''Ann''), named 22 None, named 30 (Some ''Cy'')]"
  by (simp add: flush_def attach_def SessionLocal_def insert_row_def update_row_named int4_def)
    (simp add: named_def)

theorem processed_count_counts_merged_rows_witness:
  "upload_file cpython_postgresql mixed_upload (SessionLocal []) =
     (Inr \<lparr>resp_filename = Some ''mixed.csv'', processed_count = 3, resp_status = ''success''\<rparr>,
      \<lparr>store = [named 1 (Some ''Ann''), named 22 None, named 30 (Some ''Cy'')], dirty = [],
       added = [], commits = 1\<rparr>,
      [SkippingInvalidRow (ValueError ''x1''), SkippingInvalidRow (ValueError [])])"
proof -
  have ct: "content_type mixed_upload = Some ''text/csv''"
    by (simp add: mixed_upload_def)
  have fc: "file_contents mixed_upload = Utf8 mixed_csv \<and> Malformed \<notin> set mixed_csv"
    by (simp add: mixed_upload_def mixed_csv_def)
  have c: "length (filter (merged cpython_postgresql) (data_rows mixed_csv)) = 3"
    using length_leads_of [of cpython_postgresql "data_rows mixed_csv"] by (simp add: leads_of_mixed)
  have fl: "flush cpython_postgresql
      (merge_all (SessionLocal []) (leads_of cpython_postgresql (data_rows mixed_csv))) =
      Some [named 1 (Some ''Ann''), named 22 None, named 30 (Some ''Cy'')]"
    by (simp only: leads_of_mixed flush_mixed)
  note th = processed_count_counts_merged_rows [OF ct, of cpython_postgresql "SessionLocal []"]
  from th fc fl
  have "upload_file cpython_postgresql mixed_upload (SessionLocal []) =
              (Inr \<lparr>resp_filename = filename mixed_upload,
                    processed_count = length (filter (merged cpython_postgresql) (data_rows mixed_csv)),
                    resp_status = ''success''\<rparr>,
               (merge_all (SessionLocal []) (leads_of cpython_postgresql (data_rows mixed_csv)))
                 \<lparr>store := [named 1 (Some ''Ann''), named 22 None, named 30 (Some ''Cy'')],
                  dirty := [], added := [], commits := commits (SessionLocal []) + 1\<rparr>,
               skipped_of cpython_postgresql (data_rows mixed_csv))"
    by blast
  then show ?thesis
    unfolding leads_of_mixed c by (simp add: mixed_upload_def SessionLocal_def attach_def)
qed

lemma process_csv_data_malformed_result:
  assumes "Malformed \<in> set ls"
  shows "fst (process_csv_data p (Utf8 ls) db) = Inl CsvError"
    and "commits (fst (snd (process_csv_data p (Utf8 ls) db))) = commits db"
    and "store (fst (snd (process_csv_data p (Utf8 ls) db))) = store db"
proof -
  from assms obtain ks out where
    r: "process_csv_data p (Utf8 ls) db = (Inl CsvError, merge_all db ks, out)"
    using process_csv_data_malformed by blast
  show "fst (process_csv_data p (Utf8 ls) db) = Inl CsvError"
    by (simp add: r)
  show "commits (fst (snd (process_csv_data p (Utf8 ls) db))) = commits db"
    by (simp add: r merge_all_keeps)
  show "store (fst (snd (process_csv_data p (Utf8 ls) db))) = store db"
    by (simp add: r merge_all_keeps)
qed

lemma process_csv_data_commits_once:
  assumes "Malformed \<notin> set ls"
  shows "commits (fst (snd (process_csv_data p (Utf8 ls) db))) = commits db + 1"
proof (cases "flush p (merge_all db (leads_of p (data_rows ls)))")
  case None
  with assms show ?thesis by (simp add: process_csv_data_refused)
next
  case (Some t')
  with assms show ?thesis by (simp add: process_csv_data_flushed)
qed

lemma flushed_keys:
  assumes "flush p (merge_all (SessionLocal t) ks) = Some t'"
  shows "set (map lead_id t') = set (map lead_id t) \<union> set (map lead_id ks)"
proof -
  let ?db = "merge_all (SessionLocal t) ks"
  have st: "store ?db = t" by (simp add: merge_all_keeps SessionLocal_def)
  have ad: "added ?db = unstored t ks" by (simp add: added_merge_all SessionLocal_def)
  from flush_keys(1) [OF assms] st ad
  have "map lead_id t' = map lead_id t @ map lead_id (unstored t ks)" by simp
  then have "set (map lead_id t') = set (map lead_id t) \<union> set (map lead_id (unstored t ks))"
    by simp
  also have "\<dots> = set (map lead_id t) \<union> set (map lead_id ks)"
    unfolding unstored_def by auto
  finally show ?thesis .
qed

text \<open>
  Claim C8. The loop over the rows never commits: it leaves the committed table and the
  number of commits as they were. When the reader accepts the file, \<^verbatim>\<open>process_csv_data\<close>
  calls \<^verbatim>\<open>db.commit()\<close> once, after the loop. When this commit goes through, the table is
  the one the flush of all merged leads gives, and it holds the key of every merged lead;
  when the commit raises, the table is unchanged. When the reader rejects a line, the
  function raises before it commits, and the table is unchanged. Whenever the request
  fails, it ends with the table it started with.
\<close>

theorem single_commit_after_all_rows:
  "(csv_loop p items db n out = (r, db1, out1) \<longrightarrow>
      store db1 = store db \<and> commits db1 = commits db) \<and>
   (Malformed \<notin> set ls \<longrightarrow>
      commits (fst (snd (process_csv_data p (Utf8 ls) db))) = commits db + 1) \<and>
   (Malformed \<notin> set ls \<and> flush p (merge_all db (leads_of p (data_rows ls))) = Some t' \<longrightarrow>
      fst (process_csv_data p (Utf8 ls) db) = Inr (length (leads_of p (data_rows ls))) \<and>
      store (fst (snd (process_csv_data p (Utf8 ls) db))) = t') \<and>
   (Malformed \<notin> set ls \<and> flush p (merge_all db (leads_of p (data_rows ls))) = None \<longrightarrow>
      fst (process_csv_data p (Utf8 ls) db) = Inl CommitError \<and>
      store (fst (snd (process_csv_data p (Utf8 ls) db))) = store db) \<and>
   (Malformed \<in> set ls \<longrightarrow>
      fst (process_csv_data p (Utf8 ls) db) = Inl CsvError \<and>
      commits (fst (snd (process_csv_data p (Utf8 ls) db))) = commits db \<and>
      store (fst (snd (process_csv_data p (Utf8 ls) db))) = store db) \<and>
   (flush p (merge_all (SessionLocal t) ks) = Some t'' \<longrightarrow>
      set (map lead_id t'') = set (map lead_id t) \<union> set (map lead_id ks)) \<and>
   (process_csv_data p c db = (Inl e, db2, out2) \<longrightarrow> store db2 = store db) \<and>
   (fst (post_files p upl t) = Inl e' \<longrightarrow> snd (post_files p upl t) = t)"
proof -
  have 1: "csv_loop p items db n out = (r, db1, out1) \<longrightarrow>
      store db1 = store db \<and> commits db1 = commits db"
    using csv_loop_never_commits by blast
  have 2: "Malformed \<notin> set ls \<longrightarrow>
      commits (fst (snd (process_csv_data p (Utf8 ls) db))) = commits db + 1"
    using process_csv_data_commits_once by blast
  have 3: "Malformed \<notin> set ls \<and> flush p (merge_all db (leads_of p (data_rows ls))) = Some t' \<longrightarrow>
      fst (process_csv_data p (Utf8 ls) db) = Inr (length (leads_of p (data_rows ls))) \<and>
      store (fst (snd (process_csv_data p (Utf8 ls) db))) = t'"
    by (simp add: process_csv_data_flushed length_leads_of)
  have 4: "Malformed \<notin> set ls \<and> flush p (merge_all db (leads_of p (data_rows ls))) = None \<longrightarrow>
      fst (process_csv_data p (Utf8 ls) db) = Inl CommitError \<and>
      store (fst (snd (process_csv_data p (Utf8 ls) db))) = store db"
    by (simp add: process_csv_data_refused merge_all_keeps)
  have 5: "Malformed \<in> set ls \<longrightarrow>
      fst (process_csv_data p (Utf8 ls) db) = Inl CsvError \<and>
      commits (fst (snd (process_csv_data p (Utf8 ls) db))) = commits db \<and>
      store (fst (snd (process_csv_data p (Utf8 ls) db))) = store db"
    using process_csv_data_malformed_result by blast
  have 6: "flush p (merge_all (SessionLocal t) ks) = Some t'' \<longrightarrow>
      set (map lead_id t'') = set (map lead_id t) \<union> set (map lead_id ks)"
    using flushed_keys by blast
  have 7: "process_csv_data p c db = (Inl e, db2, out2) \<longrightarrow> store db2 = store db"
    using process_csv_data_raises by blast
  have 8: "fst (post_files p upl t) = Inl e' \<longrightarrow> snd (post_files p upl t) = t"
    using post_files_raises by blast
  show ?thesis
    by (intro conjI) (rule 1, rule 2, rule 3, rule 4, rule 5, rule 6, rule 7, rule 8)
qed

lemma example_keys:
  "lead_id (named i n) = i" "lead_id ann = 5" "lead_id bob = 6" "lead_id eve = 7"
  by (simp_all add: named_def ann_def bob_def eve_def)

lemma flush_examples:
  "flush cpython_postgresql (merge_all (SessionLocal [bob]) [named 5 (Some ''A''), named 5 (Some ''B'')])
     = None"
  "flush cpython_postgresql (merge_all (SessionLocal []) [named 5 (Some ''A''), named 5 (Some ''B'')])
     = None"
  "flush cpython_postgresql (merge_all (SessionLocal [named 5 None]) [named 5 (Some ''A''), named 5 (Some ''B'')])
     = Some [named 5 (Some ''B'')]"
  "flush cpython_postgresql (merge_all (SessionLocal [bob]) [named 1 None, named 2 None])
     = Some [bob, named 1 None, named 2 None]"
  "flush cpython_postgresql (merge_all (SessionLocal []) [named 5 None]) = Some [named 5 None]"
  "flush cpython_postgresql (merge_all (SessionLocal []) [named 1 None, named 2147483648 None]) = None"
  by (simp_all add: flush_def attach_def SessionLocal_def insert_row_def update_row_named int4_def
      update_table_def example_keys)

lemma upload_broken:
  "upload_file cpython_postgresql broken_upload (SessionLocal [bob]) =
     (Inl (HTTPException 500 (FailedToProcessFile CsvError)),
      \<lparr>store = [bob], dirty = [], added = [named 1 None, named 2 None], commits = 0\<rparr>, [])"
  by (simp add: upload_file_def broken_upload_def process_csv_data_def broken_csv_def DictReader_def
      Lead_id_only merge_def attach_def SessionLocal_def bob_def named_def)

theorem single_commit_after_all_rows_witness:
  "upload_file cpython_postgresql broken_upload (SessionLocal [bob]) =
     (Inl (HTTPException 500 (FailedToProcessFile CsvError)),
      \<lparr>store = [bob], dirty = [], added = [named 1 None, named 2 None], commits = 0\<rparr>, []) \<and>
   post_files cpython_postgresql broken_upload [bob] =
     (Inl (HTTPException 500 (FailedToProcessFile CsvError)), [bob]) \<and>
   fst (process_csv_data cpython_postgresql (Utf8 dup_csv) (SessionLocal [bob])) = Inl CommitError \<and>
   store (fst (snd (process_csv_data cpython_postgresql (Utf8 dup_csv) (SessionLocal [bob])))) = [bob] \<and>
   commits (fst (snd (process_csv_data cpython_postgresql (Utf8 dup_csv) (SessionLocal [bob])))) = 1 \<and>
   fst (process_csv_data cpython_postgresql (Utf8 [Fields [''Lead ID''], Fields [''1''], Fields [''2'']])
          (SessionLocal [bob])) = Inr 2 \<and>
   store (fst (snd (process_csv_data cpython_postgresql
                      (Utf8 [Fields [''Lead ID''], Fields [''1''], Fields [''2'']])
                      (SessionLocal [bob])))) = [bob, named 1 None, named 2 None] \<and>
   commits (fst (snd (process_csv_data cpython_postgresql
                        (Utf8 [Fields [''Lead ID''], Fields [''1''], Fields [''2'']])
                        (SessionLocal [bob])))) = 1 \<and>
   post_files cpython_postgresql wide_upload [] =
     (Inl (HTTPException 500 (FailedToProcessFile CommitError)), [])"
proof -
  have wide: "post_files cpython_postgresql wide_upload [] =
     (Inl (HTTPException 500 (FailedToProcessFile CommitError)), [])"
  proof (rule post_files_refused)
    show "content_type wide_upload = Some ''text/csv''" by (simp add: wide_upload_def)
    show "file_contents wide_upload = Utf8 wide_csv" by (simp add: wide_upload_def)
    show "Malformed \<notin> set wide_csv" by (simp add: wide_csv_def)
    show "flush cpython_postgresql
        (merge_all (SessionLocal []) (leads_of cpython_postgresql (data_rows wide_csv))) = None"
      by (simp only: leads_of_wide flush_examples)
  qed
  let ?pair = "[Fields [''Lead ID''], Fields [''1''], Fields [''2'']]"
  have p: "fst (post_files cpython_postgresql broken_upload [bob]) =
      Inl (HTTPException 500 (FailedToProcessFile CsvError))"
    by (simp add: post_files_def upload_broken)
  have okd: "Malformed \<notin> set dup_csv" by (simp add: dup_csv_def)
  have okp: "Malformed \<notin> set ?pair" by simp
  have fd: "flush cpython_postgresql
      (merge_all (SessionLocal [bob]) (leads_of cpython_postgresql (data_rows dup_csv))) = None"
    by (simp only: leads_of_dup flush_examples)
  have fp: "flush cpython_postgresql
      (merge_all (SessionLocal [bob]) (leads_of cpython_postgresql (data_rows ?pair))) =
      Some [bob, named 1 None, named 2 None]"
    by (simp only: leads_of_pair flush_examples)
  note broken = single_commit_after_all_rows
    [where p = cpython_postgresql and upl = broken_upload and t = "[bob]"
       and e' = "HTTPException 500 (FailedToProcessFile CsvError)"]
  note dup = single_commit_after_all_rows
    [where p = cpython_postgresql and ls = dup_csv and db = "SessionLocal [bob]"]
  note pair = single_commit_after_all_rows
    [where p = cpython_postgresql and ls = ?pair and db = "SessionLocal [bob]"
       and t' = "[bob, named 1 None, named 2 None]"]
  from broken p have 1: "snd (post_files cpython_postgresql broken_upload [bob]) = [bob]"
    by blast
  from dup okd fd have 2:
    "fst (process_csv_data cpython_postgresql (Utf8 dup_csv) (SessionLocal [bob])) = Inl CommitError"
    "store (fst (snd (process_csv_data cpython_postgresql (Utf8 dup_csv) (SessionLocal [bob])))) =
       store (SessionLocal [bob])"
    "commits (fst (snd (process_csv_data cpython_postgresql (Utf8 dup_csv) (SessionLocal [bob])))) =
       commits (SessionLocal [bob]) + 1"
    by blast+
  from pair okp fp have 3:
    "fst (process_csv_data cpython_postgresql (Utf8 ?pair) (SessionLocal [bob])) =
       Inr (length (leads_of cpython_postgresql (data_rows ?pair)))"
    "store (fst (snd (process_csv_data cpython_postgresql (Utf8 ?pair) (SessionLocal [bob])))) =
       [bob, named 1 None, named 2 None]"
    "commits (fst (snd (process_csv_data cpython_postgresql (Utf8 ?pair) (SessionLocal [bob])))) =
       commits (SessionLocal [bob]) + 1"
    by blast+
  from p 1 have 4: "post_files cpython_postgresql broken_upload [bob] =
     (Inl (HTTPException 500 (FailedToProcessFile CsvError)), [bob])"
    by (simp add: prod_eq_iff)
  from upload_broken 4 2 3 wide show ?thesis
    by (simp add: leads_of_pair SessionLocal_def)
qed

section \<open>A new key twice in one file\<close>

text \<open>
  Claim C5. The specification has every row of a valid file upserted by id, so that the
  table after a second upload of the file is the table after the first. \<^verbatim>\<open>db.merge\<close>
  upserts a key that is stored, however often the file holds it. It does not upsert a key
  that is new: with \<^verbatim>\<open>autoflush=False\<close> every merge of a key that is not stored adds an
  instance of its own, and when a file holds such a key twice the commit raises. The
  upload is answered with status 500 and none of its rows is stored. The theorem is the
  behaviour of the code.
\<close>

theorem duplicate_new_key_fails_upload:
  assumes "content_type file = Some ''text/csv''"
      and "file_contents file = Utf8 ls"
      and "Malformed \<notin> set ls"
      and "\<not> distinct (map lead_id (unstored t (leads_of p (data_rows ls))))"
  shows "post_files p file t = (Inl (HTTPException 500 (FailedToProcessFile CommitError)), t)"
proof -
  let ?db = "merge_all (SessionLocal t) (leads_of p (data_rows ls))"
  have "added ?db = unstored t (leads_of p (data_rows ls))"
    by (simp add: added_merge_all SessionLocal_def)
  with assms(4) have "flush p ?db = None"
    by (simp add: duplicate_key_refused)
  with assms(1-3) show ?thesis by (rule post_files_refused)
qed

theorem duplicate_new_key_fails_upload_witness:
  "list_all (has_int_id cpython_postgresql) (data_rows dup_csv) \<and>
   post_files cpython_postgresql dup_upload [] =
     (Inl (HTTPException 500 (FailedToProcessFile CommitError)), []) \<and>
   post_files cpython_postgresql dup_upload [named 5 None] =
     (Inr \<lparr>resp_filename = Some ''dup.csv'', processed_count = 2, resp_status = ''success''\<rparr>,
      [named 5 (Some ''B'')])"
proof -
  have ct: "content_type dup_upload = Some ''text/csv''" by (simp add: dup_upload_def)
  have fc: "file_contents dup_upload = Utf8 dup_csv" by (simp add: dup_upload_def)
  have ok: "Malformed \<notin> set dup_csv" by (simp add: dup_csv_def)
  have d: "\<not> distinct (map lead_id (unstored [] (leads_of cpython_postgresql (data_rows dup_csv))))"
    by (simp add: leads_of_dup unstored_def named_def)
  have v: "list_all (has_int_id cpython_postgresql) (data_rows dup_csv)"
    by (simp add: data_rows_def dup_csv_def Lead_ok_iff [symmetric] Lead_mixed)
  have f: "flush cpython_postgresql
      (merge_all (SessionLocal [named 5 None]) (leads_of cpython_postgresql (data_rows dup_csv))) =
      Some [named 5 (Some ''B'')]"
    by (simp only: leads_of_dup flush_examples)
  have c: "length (filter (merged cpython_postgresql) (data_rows dup_csv)) = 2"
    using length_leads_of [of cpython_postgresql "data_rows dup_csv"] by (simp add: leads_of_dup)
  from post_files_flushed [OF ct fc ok f]
  have s: "post_files cpython_postgresql dup_upload [named 5 None] =
     (Inr \<lparr>resp_filename = Some ''dup.csv'', processed_count = 2, resp_status = ''success''\<rparr>,
      [named 5 (Some ''B'')])"
    by (simp add: c dup_upload_def)
  from duplicate_new_key_fails_upload [OF ct fc ok d] v s show ?thesis by simp
qed

section \<open>GET /leads/\<close>

lemma filter_if_given_eq:
  "filter_if_given col param q = filter (\<lambda>l. matches param (col l)) q"
  by (cases param) (simp_all add: filter_if_given_def filter_eq_def matches_def)

lemma those_map_None:
  "those (map f xs) = None \<longleftrightarrow> (\<exists>x\<in>set xs. f x = None)"
  by (induction xs) (auto split: option.splits)

lemma those_Some: "those xs = Some ys \<Longrightarrow> xs = map Some ys"
  by (induction xs arbitrary: ys) (auto split: option.splits)

lemma model_validate_Some_iff:
  "model_validate l \<noteq> None \<longleftrightarrow>
     (\<exists>a b c d e f. lead_name l = Some a \<and> length a \<le> 100 \<and> email l = Some b \<and> length b \<le> 100 \<and>
        source l = Some c \<and> interest_level l = Some d \<and> status l = Some e \<and> salesperson l = Some f)"
  by (auto simp: model_validate_def validate_str_def split: option.splits if_splits)

lemma model_validate_id: "model_validate l = Some r \<Longrightarrow> read_id r = lead_id l"
  by (auto simp: model_validate_def split: option.splits)

lemma validated_ids: "map model_validate ls = map Some rs \<Longrightarrow> map read_id rs = map lead_id ls"
proof (induction ls arbitrary: rs)
  case Nil
  then show ?case by simp
next
  case (Cons l ls)
  then obtain r rs' where rs: "rs = r # rs'" by (cases rs) auto
  with Cons.prems have "model_validate l = Some r" "map model_validate ls = map Some rs'"
    by simp_all
  with Cons.IH rs show ?case by (simp add: model_validate_id)
qed

lemma get_leads_route_answer:
  "get_leads_route ident name src interest st sales t = Inr rs \<Longrightarrow>
   map model_validate (get_leads ident name src interest st sales (SessionLocal t)) = map Some rs"
  by (auto simp: get_leads_route_def split: option.splits dest: those_Some)

lemma at_most_one_by_key:
  "distinct (map f xs) \<Longrightarrow> length (filter (\<lambda>x. f x = k) xs) \<le> 1"
proof (induction xs)
  case Nil
  then show ?case by simp
next
  case (Cons x xs)
  show ?case
  proof (cases "f x = k")
    case True
    with Cons.prems have "\<forall>y\<in>set xs. f y \<noteq> k" by (auto simp: image_iff)
    then have "filter (\<lambda>x. f x = k) xs = []" by (simp add: filter_empty_conv)
    with True show ?thesis by simp
  next
    case False
    with Cons show ?thesis by simp
  qed
qed

text \<open>
  Claim C3. When \<^verbatim>\<open>id\<close> is given, the handler selects by \<open>lead_id\<close> alone: the result is
  the same whatever the other five parameters are, and on a table that satisfies its
  primary-key constraint it holds at most one lead.
\<close>

theorem get_leads_id_takes_precedence:
  "get_leads (Some i) name src interest st sales db = filter (\<lambda>l. lead_id l = i) (store db) \<and>
   get_leads (Some i) name src interest st sales db = get_leads (Some i) None None None None None db \<and>
   get_leads_route (Some i) name src interest st sales t = get_leads_route (Some i) None None None None None t \<and>
   (pk_unique (store db) \<longrightarrow> length (get_leads (Some i) name src interest st sales db) \<le> 1) \<and>
   (\<forall>rs. pk_unique t \<and> get_leads_route (Some i) name src interest st sales t = Inr rs \<longrightarrow> length rs \<le> 1)"
proof -
  have a: "get_leads (Some i) name src interest st sales db = filter (\<lambda>l. lead_id l = i) (store db)" for db
    by (simp add: get_leads_def)
  have b: "get_leads (Some i) name src interest st sales db = get_leads (Some i) None None None None None db" for db
    by (simp add: get_leads_def)
  have c: "get_leads_route (Some i) name src interest st sales t = get_leads_route (Some i) None None None None None t"
    by (simp add: get_leads_route_def b)
  have d: "length (get_leads (Some i) name src interest st sales db) \<le> 1" if "pk_unique (store db)" for db
    using that at_most_one_by_key [of lead_id "store db" i] by (simp add: a pk_unique_def)
  have e: "length rs \<le> 1" if "pk_unique t" "get_leads_route (Some i) name src interest st sales t = Inr rs" for rs
  proof -
    from that(2) have "length rs = length (get_leads (Some i) name src interest st sales (SessionLocal t))"
      using get_leads_route_answer [of "Some i" name src interest st sales t rs]
      by (metis length_map)
    with d [of "SessionLocal t"] that(1) show ?thesis by (simp add: SessionLocal_def)
  qed
  from a b c d e show ?thesis by blast
qed

theorem get_leads_id_takes_precedence_witness:
  "pk_unique [ann, bob, eve] \<and>
   get_leads (Some 5) (Some ''Bob'') (Some ''Referral'') None None (Some ''Cy'')
     (SessionLocal [ann, bob, eve]) = [ann] \<and>
   length (get_leads (Some 5) (Some ''Bob'') (Some ''Referral'') None None (Some ''Cy'')
     (SessionLocal [ann, bob, eve])) \<le> 1"
  using get_leads_id_takes_precedence
    [of 5 "Some ''Bob''" "Some ''Referral''" None None "Some ''Cy''" "SessionLocal [ann, bob, eve]"]
  by (simp add: pk_unique_def SessionLocal_def ann_def bob_def eve_def)

lemma those_all_Some:
  "list_all (\<lambda>x. f x \<noteq> None) xs \<Longrightarrow> \<exists>ys. those (map f xs) = Some ys \<and> map Some ys = map f xs"
  by (induction xs) auto

lemma get_leads_selected:
  "get_leads None name src interest st sales db = selected name src interest st sales (store db)"
  by (simp add: get_leads_def selected_def filter_if_given_eq conj_commute conj_left_commute
      cong: conj_cong)

text \<open>
  Claim C9. The specification has a request without \<^verbatim>\<open>id\<close> answered with the stored
  leads that match every parameter that was given, with all stored leads when none was
  given. The handler \<^verbatim>\<open>get_leads\<close> returns exactly these leads. The route then validates
  them against \<^verbatim>\<open>LeadRead\<close>, whose six fields are typed \<^verbatim>\<open>str\<close> although their default is
  \<^verbatim>\<open>None\<close> and their columns are nullable (\<^verbatim>\<open>UserRead\<close> types its nullable field
  \<^verbatim>\<open>Optional[str]\<close>). The request is answered with the records of the selected leads
  when each of them validates, and with the validation error when one of them does not:
  one stored lead with a null column, as a CSV upload creates it, fails every listing that
  selects it. The theorem is the behaviour of the code.
\<close>

theorem listing_without_id:
  "get_leads None name src interest st sales db = selected name src interest st sales (store db) \<and>
   (l \<in> set (selected name src interest st sales t) \<longleftrightarrow>
      l \<in> set t \<and>
      (\<forall>v. name = Some v \<longrightarrow> lead_name l = Some v) \<and>
      (\<forall>v. src = Some v \<longrightarrow> source l = Some v) \<and>
      (\<forall>v. interest = Some v \<longrightarrow> interest_level l = Some v) \<and>
      (\<forall>v. st = Some v \<longrightarrow> status l = Some v) \<and>
      (\<forall>v. sales = Some v \<longrightarrow> salesperson l = Some v)) \<and>
   selected None None None None None t = t \<and>
   (list_all (\<lambda>l. model_validate l \<noteq> None) (selected name src interest st sales t) \<longrightarrow>
      (\<exists>rs. get_leads_route None name src interest st sales t = Inr rs \<and>
            map Some rs = map model_validate (selected name src interest st sales t))) \<and>
   (\<not> list_all (\<lambda>l. model_validate l \<noteq> None) (selected name src interest st sales t) \<longrightarrow>
      get_leads_route None name src interest st sales t = Inl ResponseValidationError)"
proof -
  let ?sel = "selected name src interest st sales t"
  have m: "\<And>q x. matches q x \<longleftrightarrow> (\<forall>v. q = Some v \<longrightarrow> x = Some v)"
    by (simp add: matches_def split: option.splits)
  have 1: "get_leads None name src interest st sales db = selected name src interest st sales (store db)"
    by (rule get_leads_selected)
  have 2: "l \<in> set ?sel \<longleftrightarrow>
      l \<in> set t \<and>
      (\<forall>v. name = Some v \<longrightarrow> lead_name l = Some v) \<and>
      (\<forall>v. src = Some v \<longrightarrow> source l = Some v) \<and>
      (\<forall>v. interest = Some v \<longrightarrow> interest_level l = Some v) \<and>
      (\<forall>v. st = Some v \<longrightarrow> status l = Some v) \<and>
      (\<forall>v. sales = Some v \<longrightarrow> salesperson l = Some v)"
    by (simp add: selected_def m)
  have 3: "selected None None None None None t = t"
    by (simp add: selected_def matches_def)
  have h: "get_leads None name src interest st sales (SessionLocal t) = ?sel"
    by (simp add: get_leads_selected SessionLocal_def)
  have 4: "list_all (\<lambda>l. model_validate l \<noteq> None) ?sel \<longrightarrow>
      (\<exists>rs. get_leads_route None name src interest st sales t = Inr rs \<and>
            map Some rs = map model_validate ?sel)"
  proof
    assume "list_all (\<lambda>l. model_validate l \<noteq> None) ?sel"
    then obtain rs where "those (map model_validate ?sel) = Some rs"
        and "map Some rs = map model_validate ?sel"
      using those_all_Some by blast
    then show "\<exists>rs. get_leads_route None name src interest st sales t = Inr rs \<and>
            map Some rs = map model_validate ?sel"
      by (simp add: get_leads_route_def h)
  qed
  have 5: "\<not> list_all (\<lambda>l. model_validate l \<noteq> None) ?sel \<longrightarrow>
      get_leads_route None name src interest st sales t = Inl ResponseValidationError"
  proof
    assume "\<not> list_all (\<lambda>l. model_validate l \<noteq> None) ?sel"
    then have "\<exists>l\<in>set ?sel. model_validate l = None"
      by (simp add: list_all_iff)
    then have "those (map model_validate ?sel) = None"
      by (simp add: those_map_None)
    then show "get_leads_route None name src interest st sales t = Inl ResponseValidationError"
      by (simp add: get_leads_route_def h)
  qed
  show ?thesis
    by (intro conjI) (rule 1, rule 2, rule 3, rule 4, rule 5)
qed

lemma model_validate_examples:
  "model_validate bare = None"
  "model_validate ann =
     Some \<lparr>read_id = 5, read_lead_name = ''Ann'', read_email = ''ann@example.com'',
           read_source = ''Web'', read_interest_level = ''High'', read_status = ''Open'',
           read_salesperson = ''Bo''\<rparr>"
  "model_validate bob =
     Some \<lparr>read_id = 6, read_lead_name = ''Bob'', read_email = ''bob@example.com'',
           read_source = ''Web'', read_interest_level = ''Low'', read_status = ''Open'',
           read_salesperson = ''Cy''\<rparr>"
  by (simp_all add: model_validate_def validate_str_def bare_def named_def ann_def bob_def)

lemma selected_examples:
  "selected None None None None None [bare] = [bare]"
  "selected None (Some ''Web'') None (Some ''Open'') None [ann, bob, eve] = [ann, bob]"
  by (simp_all add: selected_def matches_def ann_def bob_def eve_def)

theorem listing_without_id_witness:
  "get_leads None None None None None None (SessionLocal [bare]) = [bare] \<and>
   get_leads_route None None None None None None [bare] = Inl ResponseValidationError \<and>
   get_leads_route None None (Some ''Web'') None (Some ''Open'') None [ann, bob, eve] =
     Inr [\<lparr>read_id = 5, read_lead_name = ''Ann'', read_email = ''ann@example.com'',
           read_source = ''Web'', read_interest_level = ''High'', read_status = ''Open'',
           read_salesperson = ''Bo''\<rparr>,
          \<lparr>read_id = 6, read_lead_name = ''Bob'', read_email = ''bob@example.com'',
           read_source = ''Web'', read_interest_level = ''Low'', read_status = ''Open'',
           read_salesperson = ''Cy''\<rparr>]"
proof -
  note none = listing_without_id [of None None None None None "SessionLocal [bare]" bare "[bare]"]
  note web = listing_without_id
    [of None "Some ''Web''" None "Some ''Open''" None "SessionLocal [ann, bob, eve]" ann "[ann, bob, eve]"]
  note handler = none [THEN conjunct1]
  note refused = none [THEN conjunct2, THEN conjunct2, THEN conjunct2, THEN conjunct2]
  note answered = web [THEN conjunct2, THEN conjunct2, THEN conjunct2, THEN conjunct1]
  from handler have 1: "get_leads None None None None None None (SessionLocal [bare]) = [bare]"
    by (simp add: SessionLocal_def selected_examples)
  have "\<not> list_all (\<lambda>l. model_validate l \<noteq> None) (selected None None None None None [bare])"
    by (simp add: selected_examples model_validate_examples)
  with refused have 2:
    "get_leads_route None None None None None None [bare] = Inl ResponseValidationError"
    by (rule mp)
  have "list_all (\<lambda>l. model_validate l \<noteq> None)
      (selected None (Some ''Web'') None (Some ''Open'') None [ann, bob, eve])"
    by (simp add: selected_examples model_validate_examples)
  with answered have "\<exists>rs.
      get_leads_route None None (Some ''Web'') None (Some ''Open'') None [ann, bob, eve] = Inr rs \<and>
      map Some rs =
        map model_validate (selected None (Some ''Web'') None (Some ''Open'') None [ann, bob, eve])"
    by (rule mp)
  then obtain rs where
      r: "get_leads_route None None (Some ''Web'') None (Some ''Open'') None [ann, bob, eve] = Inr rs"
    and v: "map Some rs =
      map model_validate (selected None (Some ''Web'') None (Some ''Open'') None [ann, bob, eve])"
    by (elim exE conjE)
  from v have "map Some rs = map Some
     [\<lparr>read_id = 5, read_lead_name = ''Ann'', read_email = ''ann@example.com'',
           read_source = ''Web'', read_interest_level = ''High'', read_status = ''Open'',
           read_salesperson = ''Bo''\<rparr>,
      \<lparr>read_id = 6, read_lead_name = ''Bob'', read_email = ''bob@example.com'',
           read_source = ''Web'', read_interest_level = ''Low'', read_status = ''Open'',
           read_salesperson = ''Cy''\<rparr>]"
    by (simp only: selected_examples model_validate_examples list.map)
  then have "rs =
     [\<lparr>read_id = 5, read_lead_name = ''Ann'', read_email = ''ann@example.com'',
           read_source = ''Web'', read_interest_level = ''High'', read_status = ''Open'',
           read_salesperson = ''Bo''\<rparr>,
      \<lparr>read_id = 6, read_lead_name = ''Bob'', read_email = ''bob@example.com'',
           read_source = ''Web'', read_interest_level = ''Low'', read_status = ''Open'',
           read_salesperson = ''Cy''\<rparr>]"
    by (simp only: inj_map_eq_map [OF inj_Some])
  with r have 3: "get_leads_route None None (Some ''Web'') None (Some ''Open'') None [ann, bob, eve] =
     Inr [\<lparr>read_id = 5, read_lead_name = ''Ann'', read_email = ''ann@example.com'',
           read_source = ''Web'', read_interest_level = ''High'', read_status = ''Open'',
           read_salesperson = ''Bo''\<rparr>,
          \<lparr>read_id = 6, read_lead_name = ''Bob'', read_email = ''bob@example.com'',
           read_source = ''Web'', read_interest_level = ''Low'', read_status = ''Open'',
           read_salesperson = ''Cy''\<rparr>]"
    by (simp only:)
  from 1 2 3 show ?thesis by (intro conjI)
qed

subsection \<open>The response model\<close>

text \<open>
  Claim C10. \<^verbatim>\<open>LeadRead\<close> types the six fields beside \<^verbatim>\<open>id\<close> as \<^verbatim>\<open>str\<close>, the table
  allows null in each of them. A lead with a null field does not validate, and a request
  whose query selects such a lead is answered with the validation error, not with the
  leads. The witness stores such a lead by uploading a CSV file that has the column
  \<^verbatim>\<open>Lead ID\<close> only.
\<close>

theorem null_field_fails_response_validation:
  assumes "l \<in> set (get_leads ident name src interest st sales (SessionLocal t))"
      and "lead_name l = None \<or> email l = None \<or> source l = None \<or>
           interest_level l = None \<or> status l = None \<or> salesperson l = None"
  shows "model_validate l = None \<and>
         get_leads_route ident name src interest st sales t = Inl ResponseValidationError"
proof -
  from assms(2) have v: "model_validate l = None"
    using model_validate_Some_iff [of l] by auto
  with assms(1) have "those (map model_validate
      (get_leads ident name src interest st sales (SessionLocal t))) = None"
    unfolding those_map_None by blast
  then show ?thesis using v by (simp add: get_leads_route_def)
qed

theorem null_field_fails_response_validation_witness:
  "snd (post_files cpython_postgresql only_ids []) = [bare] \<and>
   get_leads None None None None None None (SessionLocal [bare]) = [bare] \<and>
   get_leads_route None None None None None None [bare] = Inl ResponseValidationError"
proof -
  have ct: "content_type only_ids = Some ''text/csv''" by (simp add: only_ids_def)
  have fc: "file_contents only_ids = Utf8 [Fields [''Lead ID''], Fields [''5'']]"
    by (simp add: only_ids_def)
  have f: "flush cpython_postgresql
      (merge_all (SessionLocal [])
         (leads_of cpython_postgresql (data_rows [Fields [''Lead ID''], Fields [''5'']]))) =
      Some [named 5 None]"
    by (simp only: leads_of_only_ids flush_examples)
  from post_files_flushed [OF ct fc _ f]
  have 1: "snd (post_files cpython_postgresql only_ids []) = [bare]"
    by (simp add: bare_def)
  have 2: "get_leads None None None None None None (SessionLocal [bare]) = [bare]"
    by (simp add: get_leads_def filter_if_given_def SessionLocal_def)
  have 3: "bare \<in> set (get_leads None None None None None None (SessionLocal [bare]))"
    by (simp add: 2)
  have 4: "lead_name bare = None" by (simp add: bare_def named_def)
  from null_field_fails_response_validation [OF 3] 4 1 2
  show ?thesis by simp
qed

section \<open>The startup health check\<close>

lemma comprehensive_db_check_cases:
  "comprehensive_db_check w =
     (if managed_hosting w then (True, w)
      else if \<not> connectivity_ok w then (False, after_checks [Connectivity] w)
      else if \<not> migration_ok w then (False, after_checks [Connectivity, MigrationCurrency] w)
      else if \<not> drift_ok w then (False, after_checks [Connectivity, MigrationCurrency, SchemaDrift] w)
      else (True, after_checks [Connectivity, MigrationCurrency, SchemaDrift] w))"
  by (simp add: comprehensive_db_check_def managed_hosting_def connectivity_ok_def migration_ok_def
      drift_ok_def after_checks_def test_connection_def check_migration_status_def check_schema_drift_def did_def)

text \<open>
  Claim C6. In managed hosting the health check succeeds and carries out no check. Otherwise
  it carries out connectivity, migration currency and schema drift in this order, stops at
  the first that fails and returns \<^verbatim>\<open>False\<close> there, and returns \<^verbatim>\<open>True\<close> when all three
  passed. The trace \<open>performed\<close> of the resulting world is the checks that were carried out.
\<close>

theorem health_check_order_and_short_circuit:
  "(managed_hosting w \<longrightarrow> comprehensive_db_check w = (True, w)) \<and>
   (\<not> managed_hosting w \<and> \<not> connectivity_ok w \<longrightarrow>
      comprehensive_db_check w = (False, after_checks [Connectivity] w)) \<and>
   (\<not> managed_hosting w \<and> connectivity_ok w \<and> \<not> migration_ok w \<longrightarrow>
      comprehensive_db_check w = (False, after_checks [Connectivity, MigrationCurrency] w)) \<and>
   (\<not> managed_hosting w \<and> connectivity_ok w \<and> migration_ok w \<and> \<not> drift_ok w \<longrightarrow>
      comprehensive_db_check w = (False, after_checks [Connectivity, MigrationCurrency, SchemaDrift] w)) \<and>
   (\<not> managed_hosting w \<and> connectivity_ok w \<and> migration_ok w \<and> drift_ok w \<longrightarrow>
      comprehensive_db_check w = (True, after_checks [Connectivity, MigrationCurrency, SchemaDrift] w))"
proof (cases "managed_hosting w")
  case True
  then show ?thesis by (simp add: comprehensive_db_check_cases)
next
  case False
  consider (unreachable) "\<not> connectivity_ok w"
    | (outdated) "connectivity_ok w" "\<not> migration_ok w"
    | (drifted) "connectivity_ok w" "migration_ok w" "\<not> drift_ok w"
    | (healthy) "connectivity_ok w" "migration_ok w" "drift_ok w"
    by blast
  then show ?thesis
  proof cases
    case unreachable
    with False show ?thesis by (simp add: comprehensive_db_check_cases)
  next
    case outdated
    with False show ?thesis by (simp add: comprehensive_db_check_cases)
  next
    case drifted
    with False show ?thesis by (simp add: comprehensive_db_check_cases)
  next
    case healthy
    with False show ?thesis by (simp add: comprehensive_db_check_cases)
  qed
qed

theorem health_check_order_and_short_circuit_witness:
  "comprehensive_db_check (example_world\<lparr>environ := [(''RAILWAY_ENVIRONMENT_NAME'', ''production'')],
                                         db_reachable := False\<rparr>)
     = (True, example_world\<lparr>environ := [(''RAILWAY_ENVIRONMENT_NAME'', ''production'')],
                             db_reachable := False\<rparr>) \<and>
   comprehensive_db_check (example_world\<lparr>db_reachable := False\<rparr>)
     = (False, example_world\<lparr>db_reachable := False, performed := [Connectivity]\<rparr>) \<and>
   comprehensive_db_check example_world
     = (False, example_world\<lparr>performed := [Connectivity, MigrationCurrency]\<rparr>) \<and>
   comprehensive_db_check (example_world\<lparr>head_rev := Some ''a1''\<rparr>)
     = (False, example_world\<lparr>head_rev := Some ''a1'',
                              performed := [Connectivity, MigrationCurrency, SchemaDrift]\<rparr>) \<and>
   comprehensive_db_check (example_world\<lparr>head_rev := Some ''a1'', schema_diff := []\<rparr>)
     = (True, example_world\<lparr>head_rev := Some ''a1'', schema_diff := [],
                              performed := [Connectivity, MigrationCurrency, SchemaDrift]\<rparr>)"
  using
    health_check_order_and_short_circuit
      [of "example_world\<lparr>environ := [(''RAILWAY_ENVIRONMENT_NAME'', ''production'')],
                          db_reachable := False\<rparr>"]
    health_check_order_and_short_circuit [of "example_world\<lparr>db_reachable := False\<rparr>"]
    health_check_order_and_short_circuit [of example_world]
    health_check_order_and_short_circuit [of "example_world\<lparr>head_rev := Some ''a1''\<rparr>"]
    health_check_order_and_short_circuit
      [of "example_world\<lparr>head_rev := Some ''a1'', schema_diff := []\<rparr>"]
  by (simp add: example_world_def managed_hosting_def connectivity_ok_def migration_ok_def
      drift_ok_def after_checks_def test_connection_def check_migration_status_def check_schema_drift_def
      did_def getenv_def truthy_def)

text \<open>
  Claim C7. Outside managed hosting, when one of the three checks fails,
  \<^verbatim>\<open>startup_event\<close> raises \<^verbatim>\<open>RuntimeError\<close>, and the \<^verbatim>\<open>__main__\<close> block ends with this
  exception: it does not reach \<^verbatim>\<open>uvicorn.run\<close>.
\<close>

theorem failed_check_aborts_startup:
  assumes "\<not> managed_hosting w"
      and "\<not> connectivity_ok w \<or> \<not> migration_ok w \<or> \<not> drift_ok w"
  shows "fst (startup_event w) =
           Inl (RuntimeError ''Database issues detected - may have unexpected behaviors'') \<and>
         fst (main w) =
           Crashed (RuntimeError ''Database issues detected - may have unexpected behaviors'')"
  using assms
  by (auto simp: startup_event_def main_def comprehensive_db_check_cases)

theorem failed_check_aborts_startup_witness:
  "fst (main (example_world\<lparr>db_reachable := False\<rparr>)) =
     Crashed (RuntimeError ''Database issues detected - may have unexpected behaviors'') \<and>
   fst (main example_world) =
     Crashed (RuntimeError ''Database issues detected - may have unexpected behaviors'') \<and>
   fst (main (example_world\<lparr>head_rev := Some ''a1''\<rparr>)) =
     Crashed (RuntimeError ''Database issues detected - may have unexpected behaviors'')"
  using
    failed_check_aborts_startup [of "example_world\<lparr>db_reachable := False\<rparr>"]
    failed_check_aborts_startup [of example_world]
    failed_check_aborts_startup [of "example_world\<lparr>head_rev := Some ''a1''\<rparr>"]
  by (simp add: example_world_def managed_hosting_def connectivity_ok_def migration_ok_def
      drift_ok_def test_connection_def check_migration_status_def check_schema_drift_def
      did_def getenv_def truthy_def)

text \<open>
  Whatever the checks say, the \<^verbatim>\<open>__main__\<close> block does not reach \<^verbatim>\<open>uvicorn.run\<close>: when
  \<^verbatim>\<open>startup_event\<close> returns, the lookup of \<^verbatim>\<open>os\<close> raises.
\<close>

lemma main_never_serves: "fst (main w) \<noteq> Serving port"
  by (simp add: main_def split: prod.splits sum.splits)

end
